theory Spec2Isabelle
  imports Complex_Main "HOL-Library.Word"
begin

unbundle bit_operations_syntax

section \<open>Data model of LLMCore.LlamaModel\<close>

text \<open>
  Token ids are Python ints. A \<open>bytes\<close> value is a list of 8-bit words, a Python
  \<open>str\<close> is a list of Unicode code points. The single-precision logits of numpy
  are modelled by the real numbers they denote (rounding is not modelled; no property
  below depends on it).
\<close>

type_synonym token = int
type_synonym byte = "8 word"
type_synonym pystr = "nat list"

text \<open>One entry of the candidate array: \<open>(id, logit, p)\<close>.\<close>

type_synonym cands = "(token \<times> real \<times> real) list"

text \<open>
  The exceptions the modelled code can raise: \<open>RuntimeError\<close> from \<open>warnAndExit\<close>,
  the shape and index errors of numpy and ctypes, a failed \<open>assert\<close>, the encoder's
  error, and a fault of the inference engine where the C library has no defined result.
\<close>

datatype error =
  RuntimeError | ValueError | IndexError | AssertionError | UnicodeEncodeError | EngineFault

text \<open>The fields of \<open>LLMUtils.LLMConfig\<close> that \<open>LlamaModel\<close> reads.\<close>

record LLMConfig =
  cfg_nCtx :: int
  logitsAll :: bool
  n_keep :: int
  logit_bias :: "(int \<times> real) list"
  frequency_penalty :: real
  repeat_penalty :: real
  presence_penalty :: real
  temperature :: real
  mirostat :: int
  mirostat_tau :: real
  mirostat_eta :: real
  top_k :: int
  tfs_z :: real
  top_p :: real
  antiPrompt :: "pystr list"
  prompt :: pystr
  n_predict :: int

text \<open>
  The object state of \<open>LlamaModel\<close>. \<open>ctx\<close> (the field \<open>context\<close> of the
  source) is the state of the inference engine behind the \<open>llama_cpp\<close> handle;
  \<open>pastTokens\<close> starts at 0 and is only ever incremented by a chunk length, hence a
  natural number.
\<close>

record 'e LlamaModel =
  parameters :: LLMConfig
  ctx :: 'e
  nVocab :: nat
  nCtx :: int
  EOSToken :: int
  pastTokens :: nat
  inputIds :: "int list"
  scores :: "real list list"

text \<open>
  The primitives of the \<open>llama_cpp\<close> binding the code calls. They are external to the
  repository and are parameters of the model. A C pointer to floats is a function
  from index to value.
\<close>

record 'e llama_cpp =
  llama_eval :: "'e \<Rightarrow> token list \<Rightarrow> int \<Rightarrow> int \<Rightarrow> int \<times> 'e"
  llama_get_logits :: "'e \<Rightarrow> nat \<Rightarrow> real"
  llama_tokenize :: "byte list \<Rightarrow> int \<Rightarrow> bool \<Rightarrow> bool \<Rightarrow> int \<times> token list"
  llama_token_bos :: "'e \<Rightarrow> token"
  llama_token_to_piece :: "token \<Rightarrow> nat \<Rightarrow> int \<times> byte list"
  llama_sample_repetition_penalties ::
    "'e \<Rightarrow> cands \<Rightarrow> token list \<Rightarrow> int \<Rightarrow> real \<Rightarrow> real \<Rightarrow> real \<Rightarrow> cands"
  llama_sample_temperature :: "'e \<Rightarrow> cands \<Rightarrow> real \<Rightarrow> cands"
  llama_sample_token_mirostat ::
    "'e \<Rightarrow> cands \<Rightarrow> real \<Rightarrow> real \<Rightarrow> real \<Rightarrow> int \<Rightarrow> token \<times> real \<times> 'e"
  llama_sample_token_mirostat_v2 ::
    "'e \<Rightarrow> cands \<Rightarrow> real \<Rightarrow> real \<Rightarrow> real \<Rightarrow> token \<times> real \<times> 'e"
  llama_sample_top_k :: "'e \<Rightarrow> cands \<Rightarrow> int \<Rightarrow> nat \<Rightarrow> cands"
  llama_sample_tail_free :: "'e \<Rightarrow> cands \<Rightarrow> real \<Rightarrow> nat \<Rightarrow> cands"
  llama_sample_typical :: "'e \<Rightarrow> cands \<Rightarrow> real \<Rightarrow> nat \<Rightarrow> cands"
  llama_sample_top_p :: "'e \<Rightarrow> cands \<Rightarrow> real \<Rightarrow> nat \<Rightarrow> cands"
  llama_sample_token :: "'e \<Rightarrow> cands \<Rightarrow> token \<times> 'e"

section \<open>Python and numpy helpers\<close>

text \<open>\<open>xs[i:j]\<close> for \<open>0 \<le> i\<close>, \<open>0 \<le> j\<close>: both ends are clamped to the length.\<close>

definition py_slice :: "'a list \<Rightarrow> nat \<Rightarrow> nat \<Rightarrow> 'a list" where
  "py_slice xs i j = take (j - i) (drop i xs)"

text \<open>\<open>range(0, n, b)\<close> for \<open>b > 0\<close>.\<close>

definition range_step :: "nat \<Rightarrow> nat \<Rightarrow> nat list" where
  "range_step n b = map (\<lambda>k. k * b) [0 ..< (n + b - 1) div b]"

text \<open>
  numpy's \<open>a[lo:hi] = vs\<close> on a one-dimensional array: the slice is clamped to the
  array; the value must have the slice's length or length 1 (it is then broadcast, also
  into an empty slice); any other length raises \<open>ValueError\<close>.
\<close>

definition assign_slice :: "'a list \<Rightarrow> nat \<Rightarrow> nat \<Rightarrow> 'a list \<Rightarrow> error + 'a list" where
  "assign_slice xs lo hi vs =
     (let lo' = min lo (length xs);
          hi' = max lo' (min hi (length xs));
          m = hi' - lo'
      in if length vs = m then Inr (take lo' xs @ vs @ drop hi' xs)
         else if length vs = 1 then Inr (take lo' xs @ replicate m (hd vs) @ drop hi' xs)
         else Inl ValueError)"

text \<open>
  numpy's \<open>a[lo:hi, :].reshape(-1)[:] = vs\<close> on a matrix with \<open>ncols\<close> columns: the
  selected rows, flattened, receive \<open>vs\<close> under the same length rule.
\<close>

definition unflatten :: "nat \<Rightarrow> nat \<Rightarrow> 'a list \<Rightarrow> 'a list list" where
  "unflatten ncols m vs = map (\<lambda>i. py_slice vs (i * ncols) (i * ncols + ncols)) [0 ..< m]"

definition assign_rows ::
  "'a list list \<Rightarrow> nat \<Rightarrow> nat \<Rightarrow> nat \<Rightarrow> 'a list \<Rightarrow> error + 'a list list" where
  "assign_rows sc ncols lo hi vs =
     (let lo' = min lo (length sc);
          hi' = max lo' (min hi (length sc));
          m = hi' - lo'
      in if length vs = m * ncols then Inr (take lo' sc @ unflatten ncols m vs @ drop hi' sc)
         else if length vs = 1
           then Inr (take lo' sc @ replicate m (replicate ncols (hd vs)) @ drop hi' sc)
         else Inl ValueError)"

section \<open>\<open>LlamaModel.evaluate\<close>\<close>

text \<open>
  One pass of the loop body of \<open>evaluate\<close> for the chunk starting at index \<open>i\<close>.
  An exception leaves the object as mutated so far, so an error carries the state.
  The index \<open>i\<close> comes from \<open>range(0, len(tokens), batch)\<close>, so the chunk is never
  empty and \<open>nTokens - 1\<close> is a natural number.
\<close>

definition evaluate_chunk ::
  "'e llama_cpp \<Rightarrow> 'e LlamaModel \<Rightarrow> token list \<Rightarrow> nat \<Rightarrow> nat
     \<Rightarrow> (error \<times> 'e LlamaModel) + 'e LlamaModel" where
  "evaluate_chunk P s tokens batch i =
     (let nBatch = py_slice tokens i (min (length tokens) (i + batch));
          nPast = min (nCtx s - int (length nBatch))
                      (int (length (py_slice (inputIds s) 0 (pastTokens s))));
          nTokens = length nBatch;
          (evalCode, ctx') = llama_eval P (ctx s) nBatch (int nTokens) nPast;
          s1 = s\<lparr>ctx := ctx'\<rparr>
      in if evalCode \<noteq> 0 then Inl (RuntimeError, s1)
         else (case assign_slice (inputIds s1) (pastTokens s1) (pastTokens s1 + nTokens) nBatch of
           Inl e \<Rightarrow> Inl (e, s1)
         | Inr ids \<Rightarrow>
             (let s2 = s1\<lparr>inputIds := ids\<rparr>;
                  rows = (if logitsAll (parameters s2) then nTokens else 1);
                  cols = nVocab s2;
                  offset = (if logitsAll (parameters s2) then 0 else nTokens - 1)
              in (case assign_rows (scores s2) (nVocab s2) (pastTokens s2 + offset)
                        (pastTokens s2 + nTokens)
                        (map (llama_get_logits P (ctx s2)) [0 ..< rows * cols]) of
                   Inl e \<Rightarrow> Inl (e, s2)
                 | Inr sc \<Rightarrow>
                     Inr (s2\<lparr>scores := sc, pastTokens := pastTokens s2 + nTokens\<rparr>)))))"

fun evaluate_loop ::
  "'e llama_cpp \<Rightarrow> 'e LlamaModel \<Rightarrow> token list \<Rightarrow> nat \<Rightarrow> nat list
     \<Rightarrow> (error \<times> 'e LlamaModel) + 'e LlamaModel" where
  "evaluate_loop P s tokens batch [] = Inr s"
| "evaluate_loop P s tokens batch (i # is) =
     (case evaluate_chunk P s tokens batch i of
        Inl e \<Rightarrow> Inl e
      | Inr s' \<Rightarrow> evaluate_loop P s' tokens batch is)"

definition evaluate ::
  "'e llama_cpp \<Rightarrow> 'e LlamaModel \<Rightarrow> token list \<Rightarrow> int
     \<Rightarrow> (error \<times> 'e LlamaModel) + 'e LlamaModel" where
  "evaluate P s tokens batch =
     (if batch > 0
      then evaluate_loop P s tokens (nat batch) (range_step (length tokens) (nat batch))
      else Inr s)"

section \<open>\<open>LlamaModel.sampleTokenWithModel\<close>\<close>

text \<open>\<open>xs[-k:]\<close>: the last \<open>k\<close> elements for \<open>k > 0\<close>, everything for \<open>k = 0\<close>
  (\<open>-0\<close> is \<open>0\<close>), and \<open>xs[j:]\<close> for \<open>k = -j < 0\<close>.\<close>

definition slice_last :: "'a list \<Rightarrow> int \<Rightarrow> 'a list" where
  "slice_last xs k = (if k > 0 then drop (length xs - nat k) xs else drop (nat (- k)) xs)"

text \<open>ctypes' \<open>(llama_token * n)(*data)\<close>: a negative length is a \<open>ValueError\<close>, more
  initialisers than elements an \<open>IndexError\<close>; missing elements are zero.\<close>

definition ctypes_array :: "int \<Rightarrow> token list \<Rightarrow> error + token list" where
  "ctypes_array n data =
     (if n < 0 then Inl ValueError
      else if length data > nat n then Inl IndexError
      else Inr (data @ replicate (nat n - length data) 0))"

text \<open>numpy's index normalisation for \<open>a[i]\<close> on an array of length \<open>n\<close>.\<close>

definition np_index :: "nat \<Rightarrow> int \<Rightarrow> nat option" where
  "np_index n i =
     (let j = (if i < 0 then i + int n else i)
      in if 0 \<le> j \<and> j < int n then Some (nat j) else None)"

text \<open>
  The bias pass (source lines 128--129): \<open>logits[token] = logits[token] * bias\<close> for the
  items of the dictionary, in their order. \<open>logits\<close> is a view of a row of \<open>scores\<close>,
  so an \<open>IndexError\<close> in the middle leaves the earlier products written.
\<close>

fun apply_logit_bias :: "real list \<Rightarrow> (int \<times> real) list \<Rightarrow> (error \<times> real list) + real list" where
  "apply_logit_bias logits [] = Inr logits"
| "apply_logit_bias logits ((token, bias) # rest) =
     (case np_index (length logits) token of
        None \<Rightarrow> Inl (IndexError, logits)
      | Some j \<Rightarrow> apply_logit_bias (logits[j := logits ! j * bias]) rest)"

text \<open>
  Filling the candidate array: ids \<open>0 .. nVocab - 1\<close>, the logits row (broadcast by numpy
  when it has length 1, a \<open>ValueError\<close> when its length is anything else than
  \<open>nVocab\<close>), and \<open>p = 0\<close>.
\<close>

definition fill_candidates :: "nat \<Rightarrow> real list \<Rightarrow> error + cands" where
  "fill_candidates n logits =
     (if length logits = n then Inr (map (\<lambda>i. (int i, logits ! i, 0)) [0 ..< n])
      else if length logits = 1 then Inr (map (\<lambda>i. (int i, hd logits, 0)) [0 ..< n])
      else Inl ValueError)"

text \<open>
  Source lines 120--146: the window of recent tokens, the bias pass on the latest logits
  row, the candidate array and the repetition penalties. The result is the candidate
  array handed to strategy selection.
\<close>

definition prepare_candidates ::
  "'e llama_cpp \<Rightarrow> 'e LlamaModel \<Rightarrow> (error \<times> 'e LlamaModel) + (cands \<times> 'e LlamaModel)" where
  "prepare_candidates P s =
     (let cfg = parameters s;
          lastNTokensSize = (if n_keep cfg \<noteq> - 1 then n_keep cfg else nCtx s);
          hist = py_slice (inputIds s) 0 (pastTokens s);
          lastNTokensData =
            replicate (nat (max 0 (n_keep cfg - int (length hist)))) 0
              @ slice_last hist lastNTokensSize
      in (case ctypes_array lastNTokensSize lastNTokensData of
            Inl e \<Rightarrow> Inl (e, s)
          | Inr window \<Rightarrow>
             (let rows = py_slice (scores s) 0 (pastTokens s)
              in if rows = [] then Inl (IndexError, s)
                 else
                  (let r = length rows - 1
                   in (case apply_logit_bias (rows ! r) (logit_bias cfg) of
                         Inl (e, logits) \<Rightarrow> Inl (e, s\<lparr>scores := (scores s)[r := logits]\<rparr>)
                       | Inr logits \<Rightarrow>
                          (let s1 = s\<lparr>scores := (scores s)[r := logits]\<rparr>
                           in (case fill_candidates (nVocab s1) logits of
                                 Inl e \<Rightarrow> Inl (e, s1)
                               | Inr candidates \<Rightarrow>
                                   Inr (llama_sample_repetition_penalties P (ctx s1) candidates
                                          window lastNTokensSize (frequency_penalty cfg)
                                          (repeat_penalty cfg) (presence_penalty cfg), s1))))))))"

text \<open>
  Modelled from the spec: \<open>llama_sample_token_greedy\<close> is a primitive of the external
  inference engine. The spec (4.2, strategy selection) gives its result: the argmax logit,
  ties broken by the lowest token id. On an empty candidate array the engine has no
  defined result.
\<close>

fun greedy_best :: "token \<times> real \<Rightarrow> cands \<Rightarrow> token \<times> real" where
  "greedy_best b [] = b"
| "greedy_best b ((i, l, p) # cs) =
     greedy_best (if l > snd b \<or> (l = snd b \<and> i < fst b) then (i, l) else b) cs"

definition llama_sample_token_greedy :: "cands \<Rightarrow> token option" where
  "llama_sample_token_greedy cs =
     (case cs of [] \<Rightarrow> None | (i, l, p) # rest \<Rightarrow> Some (fst (greedy_best (i, l) rest)))"

text \<open>
  Source lines 148--195: strategy selection. The mirostat primitives receive \<open>mu\<close> by
  reference and write it back; the model returns the new value next to the token.
  \<open>mirostatMU\<close> is a local of this function.
\<close>

definition select_token ::
  "'e llama_cpp \<Rightarrow> 'e LlamaModel \<Rightarrow> cands \<Rightarrow> (error \<times> 'e LlamaModel) + (token \<times> 'e LlamaModel)" where
  "select_token P s candidates =
     (let cfg = parameters s
      in if temperature cfg = 0 then
           (case llama_sample_token_greedy candidates of
              None \<Rightarrow> Inl (EngineFault, s)
            | Some tok \<Rightarrow> Inr (tok, s))
         else if mirostat cfg = 1 then
           (let mirostatMU = 2 * mirostat_tau cfg;
                mirostatM = 100;
                c1 = llama_sample_temperature P (ctx s) candidates (temperature cfg);
                (tok, mu', ctx') = llama_sample_token_mirostat P (ctx s) c1 (mirostat_tau cfg)
                                     (mirostat_eta cfg) mirostatMU mirostatM
            in Inr (tok, s\<lparr>ctx := ctx'\<rparr>))
         else if mirostat cfg = 2 then
           (let mirostatMU = 2 * mirostat_tau cfg;
                c1 = llama_sample_temperature P (ctx s) candidates (temperature cfg);
                (tok, mu', ctx') = llama_sample_token_mirostat_v2 P (ctx s) c1 (mirostat_tau cfg)
                                     (mirostat_eta cfg) mirostatMU
            in Inr (tok, s\<lparr>ctx := ctx'\<rparr>))
         else
           (let c1 = llama_sample_top_k P (ctx s) candidates (top_k cfg) 1;
                c2 = llama_sample_tail_free P (ctx s) c1 (tfs_z cfg) 1;
                c3 = llama_sample_typical P (ctx s) c2 1 1;
                c4 = llama_sample_top_p P (ctx s) c3 (top_p cfg) 1;
                c5 = llama_sample_temperature P (ctx s) c4 (temperature cfg);
                (tok, ctx') = llama_sample_token P (ctx s) c5
            in Inr (tok, s\<lparr>ctx := ctx'\<rparr>)))"

definition sampleTokenWithModel ::
  "'e llama_cpp \<Rightarrow> 'e LlamaModel \<Rightarrow> (error \<times> 'e LlamaModel) + (token \<times> 'e LlamaModel)" where
  "sampleTokenWithModel P s =
     (case prepare_candidates P s of
        Inl e \<Rightarrow> Inl e
      | Inr (candidates, s1) \<Rightarrow> select_token P s1 candidates)"

section \<open>\<open>LlamaModel.generateTokens\<close>\<close>

text \<open>
  One resumption of the generator: evaluate the pending tokens in batches of 64, then
  sample. \<open>generate\<close> drives it with a plain \<open>for\<close> loop, so nothing is sent in and the
  pending tokens of the next resumption are the token just yielded.
\<close>

definition generateTokens ::
  "'e llama_cpp \<Rightarrow> 'e LlamaModel \<Rightarrow> token list \<Rightarrow> (error \<times> 'e LlamaModel) + (token \<times> 'e LlamaModel)" where
  "generateTokens P s tokens =
     (case evaluate P s tokens 64 of
        Inl e \<Rightarrow> Inl e
      | Inr s1 \<Rightarrow> sampleTokenWithModel P s1)"

section \<open>Bytes and text\<close>

text \<open>\<open>xs[:n]\<close>: a negative \<open>n\<close> counts from the end.\<close>

definition slice_to :: "'a list \<Rightarrow> int \<Rightarrow> 'a list" where
  "slice_to xs n = (if n \<ge> 0 then take (nat n) xs else take (length xs - nat (- n)) xs)"

text \<open>
  \<open>str.encode("utf8")\<close>: surrogate code points cannot be encoded. Values from
  \<open>0x110000\<close> on are no code points of a Python \<open>str\<close> and are refused as well.
\<close>

definition encode_cp :: "nat \<Rightarrow> byte list option" where
  "encode_cp c =
     (if c < 128 then Some [of_nat c]
      else if c < 2048 then Some [of_nat (192 + c div 64), of_nat (128 + c mod 64)]
      else if c < 65536 then
        (if 55296 \<le> c \<and> c < 57344 then None
         else Some [of_nat (224 + c div 4096), of_nat (128 + c div 64 mod 64),
                    of_nat (128 + c mod 64)])
      else if c < 1114112 then
        Some [of_nat (240 + c div 262144), of_nat (128 + c div 4096 mod 64),
              of_nat (128 + c div 64 mod 64), of_nat (128 + c mod 64)]
      else None)"

fun utf8_encode :: "pystr \<Rightarrow> error + byte list" where
  "utf8_encode [] = Inr []"
| "utf8_encode (c # cs) =
     (case encode_cp c of
        None \<Rightarrow> Inl UnicodeEncodeError
      | Some bs \<Rightarrow> (case utf8_encode cs of Inl e \<Rightarrow> Inl e | Inr rest \<Rightarrow> Inr (bs @ rest)))"

text \<open>
  \<open>bytes.decode("utf8", errors="ignore")\<close> on the byte values: a well-formed sequence
  (shortest form, no surrogates, at most \<open>0x10FFFF\<close>) gives its code point; otherwise
  the offending byte is dropped and decoding resumes after it.
\<close>

definition is_cont :: "nat \<Rightarrow> bool" where
  "is_cont c \<longleftrightarrow> 128 \<le> c \<and> c < 192"

definition second_ok :: "nat \<Rightarrow> nat \<Rightarrow> bool" where
  "second_ok b c =
     (if b = 224 then 160 \<le> c \<and> c < 192
      else if b = 237 then 128 \<le> c \<and> c < 160
      else if b = 240 then 144 \<le> c \<and> c < 192
      else if b = 244 then 128 \<le> c \<and> c < 144
      else is_cont c)"

fun decode_ignore :: "nat list \<Rightarrow> nat list" where
  "decode_ignore [] = []"
| "decode_ignore (b # bs) =
     (if b < 128 then b # decode_ignore bs
      else if 194 \<le> b \<and> b < 224 then
        (case bs of
           c1 # r \<Rightarrow>
             if is_cont c1 then ((b - 192) * 64 + (c1 - 128)) # decode_ignore r
             else decode_ignore bs
         | _ \<Rightarrow> decode_ignore bs)
      else if 224 \<le> b \<and> b < 240 then
        (case bs of
           c1 # c2 # r \<Rightarrow>
             if second_ok b c1 \<and> is_cont c2
             then ((b - 224) * 4096 + (c1 - 128) * 64 + (c2 - 128)) # decode_ignore r
             else decode_ignore bs
         | _ \<Rightarrow> decode_ignore bs)
      else if 240 \<le> b \<and> b < 245 then
        (case bs of
           c1 # c2 # c3 # r \<Rightarrow>
             if second_ok b c1 \<and> is_cont c2 \<and> is_cont c3
             then ((b - 240) * 262144 + (c1 - 128) * 4096 + (c2 - 128) * 64 + (c3 - 128))
                    # decode_ignore r
             else decode_ignore bs
         | _ \<Rightarrow> decode_ignore bs)
      else decode_ignore bs)"

definition utf8_decode_ignore :: "byte list \<Rightarrow> pystr" where
  "utf8_decode_ignore bs = decode_ignore (map unat bs)"

text \<open>\<open>s.find(sub)\<close> on bytes: the lowest index where \<open>sub\<close> occurs; \<open>sub in s\<close> holds
  when there is one, and \<open>s.index(sub)\<close> raises \<open>ValueError\<close> when there is none.\<close>

definition bytes_find :: "byte list \<Rightarrow> byte list \<Rightarrow> nat option" where
  "bytes_find s sub = List.find (\<lambda>i. take (length sub) (drop i s) = sub) [0 ..< Suc (length s)]"

section \<open>\<open>tokenizeFull\<close>, \<open>tokenToByte\<close>, \<open>tokensToString\<close>\<close>

text \<open>
  \<open>llama_tokenize\<close> fills a ctypes array of \<open>nCtx\<close> tokens (zero where it wrote
  nothing) and returns a count, negative when the text does not fit.
\<close>

definition tokenizeFull ::
  "'e llama_cpp \<Rightarrow> 'e LlamaModel \<Rightarrow> pystr \<Rightarrow> bool \<Rightarrow> bool \<Rightarrow> error + token list" where
  "tokenizeFull P s input bos special =
     (if nCtx s < 0 then Inl ValueError
      else (case utf8_encode input of
              Inl e \<Rightarrow> Inl e
            | Inr text \<Rightarrow>
               (let (newTokens, written) = llama_tokenize P text (nCtx s) bos special;
                    tokens = take (nat (nCtx s)) (written @ replicate (nat (nCtx s)) 0)
                in Inr (slice_to tokens newTokens))))"

text \<open>\<open>llama_token_to_piece\<close> fills a buffer of \<open>size\<close> bytes and returns a count.\<close>

definition tokenToByte :: "'e llama_cpp \<Rightarrow> token \<Rightarrow> error + byte list" where
  "tokenToByte P token =
     (let size = 32;
          (n, written) = llama_token_to_piece P token size;
          buffer = take size (written @ replicate size 0)
      in if n \<le> int size then Inr (slice_to buffer n) else Inl AssertionError)"

fun concat_pieces :: "'e llama_cpp \<Rightarrow> byte list \<Rightarrow> token list \<Rightarrow> error + byte list" where
  "concat_pieces P buf [] = Inr buf"
| "concat_pieces P buf (token # rest) =
     (case tokenToByte P token of
        Inl e \<Rightarrow> Inl e
      | Inr piece \<Rightarrow> concat_pieces P (buf @ piece) rest)"

definition tokensToString :: "'e llama_cpp \<Rightarrow> token list \<Rightarrow> error + pystr" where
  "tokensToString P tokens =
     (case concat_pieces P [] tokens of
        Inl e \<Rightarrow> Inl e
      | Inr buf \<Rightarrow> Inr (utf8_decode_ignore buf))"

section \<open>\<open>LlamaModel.generate\<close>\<close>

text \<open>The locals of \<open>generate\<close> that the loop updates.\<close>

record gen_locals =
  tokens :: "token list"
  tempBytes :: "byte list"
  finalString :: pystr
  incompleteFix :: int

definition exitTokens :: "token list" where
  "exitTokens = [32002, 32001]"

text \<open>
  Source lines 251--255: the scan of \<open>tempBytes[-3:]\<close>. The enumeration index \<open>k\<close>
  becomes \<open>3 - k\<close>; each pattern that applies overwrites \<open>incompleteFix\<close>.
\<close>

definition lead_patterns :: "(int \<times> byte) list" where
  "lead_patterns = [(2, 192), (3, 224), (4, 240)]"

fun scan_patterns :: "int \<Rightarrow> int \<Rightarrow> byte \<Rightarrow> (int \<times> byte) list \<Rightarrow> int" where
  "scan_patterns fix k char [] = fix"
| "scan_patterns fix k char ((number, pattern) # ps) =
     scan_patterns (if number > k \<and> pattern AND char = pattern then number - k else fix)
       k char ps"

fun scan_tail :: "int \<Rightarrow> nat \<Rightarrow> byte list \<Rightarrow> int" where
  "scan_tail fix k [] = fix"
| "scan_tail fix k (char # cs) =
     scan_tail (scan_patterns fix (3 - int k) char lead_patterns) (Suc k) cs"

definition incomplete_scan :: "int \<Rightarrow> byte list \<Rightarrow> int" where
  "incomplete_scan fix tb = scan_tail fix 0 (slice_last tb 3)"

text \<open>
  The body of the \<open>for\<close> loop (source lines 245--271) for one yielded token \<open>t\<close>. The
  Boolean of the result says whether the loop is left (\<open>break\<close>) or goes on.
\<close>

definition loop_body ::
  "'e llama_cpp \<Rightarrow> byte list list \<Rightarrow> 'e LlamaModel \<Rightarrow> gen_locals \<Rightarrow> token
     \<Rightarrow> error + (bool \<times> gen_locals)" where
  "loop_body P encodedAntiPrompts s g t =
     (if t = EOSToken s \<or> t \<in> set exitTokens then
        (if int (length (finalString g)) + 1 \<noteq> int (length (tokens g)) then
           (case tokensToString P (tokens g) of
              Inl e \<Rightarrow> Inl e
            | Inr str \<Rightarrow> Inr (True, g\<lparr>finalString := str\<rparr>))
         else Inr (True, g))
      else
        (let g1 = g\<lparr>tokens := tokens g @ [t]\<rparr>
         in (case tokenToByte P (last (tokens g1)) of
               Inl e \<Rightarrow> Inl e
             | Inr piece \<Rightarrow>
                (let g2 = g1\<lparr>tempBytes := tempBytes g1 @ piece\<rparr>;
                     g3 = g2\<lparr>incompleteFix := incomplete_scan (incompleteFix g2) (tempBytes g2)\<rparr>
                 in if incompleteFix g3 > 0 then
                      Inr (False, g3\<lparr>incompleteFix := incompleteFix g3 - 1\<rparr>)
                    else
                      (case filter (\<lambda>a. bytes_find (tempBytes g3) a \<noteq> None) encodedAntiPrompts of
                         firstAntiPrompt # _ \<Rightarrow>
                           (case bytes_find (tempBytes g3) firstAntiPrompt of
                              None \<Rightarrow> Inl ValueError
                            | Some i \<Rightarrow> Inr (True, g3\<lparr>tempBytes := py_slice (tempBytes g3) 0 i\<rparr>))
                       | [] \<Rightarrow>
                           if int (length (tokens g3)) > n_predict (parameters s) then
                             (case tokensToString P (tokens g3) of
                                Inl e \<Rightarrow> Inl e
                              | Inr str \<Rightarrow> Inr (True, g3\<lparr>finalString := str\<rparr>))
                           else Inr (False, g3))))))"

text \<open>
  The \<open>for\<close> loop over the generator. The generator never ends by itself, so the loop
  is given fuel: \<open>None\<close> means that it is still running when the fuel is spent.
\<close>

fun generate_loop ::
  "nat \<Rightarrow> 'e llama_cpp \<Rightarrow> byte list list \<Rightarrow> 'e LlamaModel \<Rightarrow> token list \<Rightarrow> gen_locals
     \<Rightarrow> ((error \<times> 'e LlamaModel) + (gen_locals \<times> 'e LlamaModel)) option" where
  "generate_loop 0 P enc s pending g = None"
| "generate_loop (Suc fuel) P enc s pending g =
     (case generateTokens P s pending of
        Inl e \<Rightarrow> Some (Inl e)
      | Inr (t, s1) \<Rightarrow>
         (case loop_body P enc s1 g t of
            Inl e \<Rightarrow> Some (Inl (e, s1))
          | Inr (brk, g') \<Rightarrow>
              if brk then Some (Inr (g', s1)) else generate_loop fuel P enc s1 [t] g'))"

fun encode_all :: "pystr list \<Rightarrow> error + byte list list" where
  "encode_all [] = Inr []"
| "encode_all (a # as) =
     (case utf8_encode a of
        Inl e \<Rightarrow> Inl e
      | Inr b \<Rightarrow> (case encode_all as of Inl e \<Rightarrow> Inl e | Inr bs \<Rightarrow> Inr (b # bs)))"

definition generate ::
  "nat \<Rightarrow> 'e llama_cpp \<Rightarrow> 'e LlamaModel \<Rightarrow> ((error \<times> 'e LlamaModel) + (pystr \<times> 'e LlamaModel)) option" where
  "generate fuel P s =
     (let antiPrompts = antiPrompt (parameters s);
          g0 = \<lparr>tokens = [], tempBytes = [], finalString = [], incompleteFix = 0\<rparr>
      in (case (if prompt (parameters s) \<noteq> [] then tokenizeFull P s (prompt (parameters s)) False True
                else Inr [llama_token_bos P (ctx s)]) of
            Inl e \<Rightarrow> Some (Inl (e, s))
          | Inr tokenizedPromptTokens \<Rightarrow>
              if int (length tokenizedPromptTokens) \<ge> cfg_nCtx (parameters s) then Some (Inr ([], s))
              else
               (case encode_all antiPrompts of
                  Inl e \<Rightarrow> Some (Inl (e, s))
                | Inr encodedAntiPrompts \<Rightarrow>
                   (case generate_loop fuel P encodedAntiPrompts s tokenizedPromptTokens g0 of
                      None \<Rightarrow> None
                    | Some (Inl e) \<Rightarrow> Some (Inl e)
                    | Some (Inr (g, s')) \<Rightarrow>
                        Some (Inr (if finalString g \<noteq> [] then finalString g
                                   else utf8_decode_ignore (tempBytes g), s'))))))"

text \<open>\<open>_init\<close> (the arrays are uninitialised in the source; zero here) and \<open>update\<close>.\<close>

definition init :: "'e LlamaModel \<Rightarrow> error + 'e LlamaModel" where
  "init s =
     (if nCtx s < 0 then Inl ValueError
      else Inr (s\<lparr>EOSToken := 32000, pastTokens := 0,
                  inputIds := replicate (nat (nCtx s)) 0,
                  scores := replicate (nat (nCtx s)) (replicate (nVocab s) 0)\<rparr>))"

definition update :: "'e LlamaModel \<Rightarrow> LLMConfig \<Rightarrow> 'e LlamaModel" where
  "update s newParameters = s\<lparr>parameters := newParameters, nCtx := cfg_nCtx newParameters\<rparr>"

section \<open>A scripted engine for concrete runs\<close>

text \<open>
  An instance of the primitives used to run the model on concrete inputs. The engine
  state is a trace: the \<open>(tokens, n_past)\<close> arguments of every \<open>llama_eval\<close> call and
  the \<open>mu\<close> every mirostat call received. The logits favour the scripted token of the
  current step, the tokenizer yields one token per byte, and the filters are identities.
\<close>

record trace =
  evals :: "(token list \<times> int) list"
  mus :: "real list"

definition nth_or :: "'a \<Rightarrow> 'a list \<Rightarrow> nat \<Rightarrow> 'a" where
  "nth_or d xs i = (if i < length xs then xs ! i else d)"

definition script_cpp :: "token list \<Rightarrow> (token \<Rightarrow> byte list) \<Rightarrow> trace llama_cpp" where
  "script_cpp script pieces =
     \<lparr>llama_eval = (\<lambda>e toks n past. (0, e\<lparr>evals := evals e @ [(toks, past)]\<rparr>)),
      llama_get_logits = (\<lambda>e i. if int i = nth_or 0 script (length (evals e) - 1) then 1 else 0),
      llama_tokenize = (\<lambda>text n_max bos special.
         (int (min (length text) (nat n_max)), take (nat n_max) (map uint text))),
      llama_token_bos = (\<lambda>e. 1),
      llama_token_to_piece = (\<lambda>tok size. (int (length (pieces tok)), pieces tok)),
      llama_sample_repetition_penalties = (\<lambda>e c w n f r p. c),
      llama_sample_temperature = (\<lambda>e c t. c),
      llama_sample_token_mirostat = (\<lambda>e c tau eta mu m.
         (nth_or 0 script (length (mus e)), mu - eta, e\<lparr>mus := mus e @ [mu]\<rparr>)),
      llama_sample_token_mirostat_v2 = (\<lambda>e c tau eta mu.
         (nth_or 0 script (length (mus e)), mu - eta, e\<lparr>mus := mus e @ [mu]\<rparr>)),
      llama_sample_top_k = (\<lambda>e c k m. c),
      llama_sample_tail_free = (\<lambda>e c z m. c),
      llama_sample_typical = (\<lambda>e c p m. c),
      llama_sample_top_p = (\<lambda>e c p m. c),
      llama_sample_token = (\<lambda>e c. (nth_or 0 script (length (evals e) - 1), e))\<rparr>"

definition demo_config :: LLMConfig where
  "demo_config =
     \<lparr>cfg_nCtx = 8, logitsAll = False, n_keep = - 1, logit_bias = [],
      frequency_penalty = 0, repeat_penalty = 1, presence_penalty = 0,
      temperature = 0, mirostat = 0, mirostat_tau = 2, mirostat_eta = 1,
      top_k = 40, tfs_z = 1, top_p = 1, antiPrompt = [], prompt = [], n_predict = 1\<rparr>"

definition fresh :: trace where
  "fresh = \<lparr>evals = [], mus = []\<rparr>"

text \<open>The object after \<open>__init__\<close> for an engine state, a configuration and a vocabulary
  size.\<close>

definition demo_model :: "'e \<Rightarrow> LLMConfig \<Rightarrow> nat \<Rightarrow> 'e LlamaModel" where
  "demo_model e cfg nv =
     \<lparr>parameters = cfg, ctx = e, nVocab = nv, nCtx = cfg_nCtx cfg,
      EOSToken = 32000, pastTokens = 0,
      inputIds = replicate (nat (cfg_nCtx cfg)) 0,
      scores = replicate (nat (cfg_nCtx cfg)) (replicate nv 0)\<rparr>"

text \<open>The same object over the engine state of a recording engine, nothing recorded.\<close>

definition demo_logged :: "LLMConfig \<Rightarrow> nat \<Rightarrow> (trace \<times> (token list \<times> int) list) LlamaModel" where
  "demo_logged = demo_model (fresh, [])"

text \<open>The object after one evaluated token whose logits row is \<open>row\<close>.\<close>

definition demo_sampling :: "LLMConfig \<Rightarrow> real list \<Rightarrow> trace LlamaModel" where
  "demo_sampling cfg row =
     (demo_model fresh cfg (length row))
       \<lparr>pastTokens := 1,
        scores := row # replicate (nat (cfg_nCtx cfg) - 1) (replicate (length row) 0)\<rparr>"

definition byte_piece :: "token \<Rightarrow> byte list" where
  "byte_piece t = [word_of_int t]"

text \<open>Vocabularies for the runs: two words, and the bytes of \<open>a\<close> and of the euro sign.\<close>

definition hello_pieces :: "token \<Rightarrow> byte list" where
  "hello_pieces t =
     (if t = 1 then [72, 101, 108, 108, 111, 32]
      else if t = 2 then [87, 111, 114, 108, 100]
      else [])"

definition euro_pieces :: "token \<Rightarrow> byte list" where
  "euro_pieces t =
     (if t = 1 then [226] else if t = 2 then [130] else if t = 3 then [172] else [97])"

text \<open>The locals of \<open>generate\<close> when the loop is entered.\<close>

definition start_locals :: gen_locals where
  "start_locals = \<lparr>tokens = [], tempBytes = [], finalString = [], incompleteFix = 0\<rparr>"

section \<open>Auxiliary notions for the statements\<close>

text \<open>
  Any engine can be made to record the \<open>(tokens, n_past)\<close> arguments of its
  \<open>llama_eval\<close> calls next to its own state; its results are those of the engine it wraps.
\<close>

definition logged :: "'e llama_cpp \<Rightarrow> ('e \<times> (token list \<times> int) list) llama_cpp" where
  "logged P =
     \<lparr>llama_eval = (\<lambda>(e, log) toks n past.
         (fst (llama_eval P e toks n past),
          (snd (llama_eval P e toks n past), log @ [(toks, past)]))),
      llama_get_logits = (\<lambda>(e, log). llama_get_logits P e),
      llama_tokenize = llama_tokenize P,
      llama_token_bos = (\<lambda>(e, log). llama_token_bos P e),
      llama_token_to_piece = llama_token_to_piece P,
      llama_sample_repetition_penalties = (\<lambda>(e, log). llama_sample_repetition_penalties P e),
      llama_sample_temperature = (\<lambda>(e, log). llama_sample_temperature P e),
      llama_sample_token_mirostat = (\<lambda>(e, log) c tau eta mu m.
         (case llama_sample_token_mirostat P e c tau eta mu m of
            (tok, mu', e') \<Rightarrow> (tok, mu', (e', log)))),
      llama_sample_token_mirostat_v2 = (\<lambda>(e, log) c tau eta mu.
         (case llama_sample_token_mirostat_v2 P e c tau eta mu of
            (tok, mu', e') \<Rightarrow> (tok, mu', (e', log)))),
      llama_sample_top_k = (\<lambda>(e, log). llama_sample_top_k P e),
      llama_sample_tail_free = (\<lambda>(e, log). llama_sample_tail_free P e),
      llama_sample_typical = (\<lambda>(e, log). llama_sample_typical P e),
      llama_sample_top_p = (\<lambda>(e, log). llama_sample_top_p P e),
      llama_sample_token = (\<lambda>(e, log) c.
         (case llama_sample_token P e c of (tok, e') \<Rightarrow> (tok, (e', log))))\<rparr>"

text \<open>The same object with other \<open>mirostat\<close>, \<open>top_k\<close> and \<open>top_p\<close> settings.\<close>

definition retune :: "int \<Rightarrow> int \<Rightarrow> real \<Rightarrow> 'e LlamaModel \<Rightarrow> 'e LlamaModel" where
  "retune m k q s = s\<lparr>parameters := (parameters s)\<lparr>mirostat := m, top_k := k, top_p := q\<rparr>\<rparr>"

text \<open>\<open>dominates r x\<close>: candidate \<open>r\<close> has the higher logit, or the same logit and an id
  that is not higher.\<close>

text \<open>
  The same engine, except that both mirostat primitives disregard the \<open>mu\<close> they are
  handed and start from \<open>2 * tau\<close>, and report \<open>0\<close> as the \<open>mu\<close> they write back.
\<close>

definition pin_mu :: "'e llama_cpp \<Rightarrow> 'e llama_cpp" where
  "pin_mu P =
     P\<lparr>llama_sample_token_mirostat := (\<lambda>e c tau eta mu m.
         (case llama_sample_token_mirostat P e c tau eta (2 * tau) m of
            (tok, mu', e') \<Rightarrow> (tok, 0, e'))),
       llama_sample_token_mirostat_v2 := (\<lambda>e c tau eta mu.
         (case llama_sample_token_mirostat_v2 P e c tau eta (2 * tau) of
            (tok, mu', e') \<Rightarrow> (tok, 0, e')))\<rparr>"

text \<open>
  The window arrays are as \<open>_init\<close> allocates them (\<open>nCtx\<close> entries each), the
  vocabulary has at least two tokens, and the counter is within the window.
\<close>

definition window_ok :: "'e LlamaModel \<Rightarrow> bool" where
  "window_ok s \<longleftrightarrow>
     nCtx s = int (length (inputIds s)) \<and> length (scores s) = length (inputIds s) \<and>
     2 \<le> nVocab s \<and> pastTokens s \<le> length (inputIds s)"

definition dominates :: "token \<times> real \<Rightarrow> token \<times> real \<Rightarrow> bool" where
  "dominates r x \<longleftrightarrow> snd x < snd r \<or> (snd x = snd r \<and> fst r \<le> fst x)"

section \<open>Properties of \<open>evaluate\<close>\<close>

lemma assign_slice_length:
  "assign_slice xs lo hi vs = Inr ys \<Longrightarrow> length ys = length xs"
  by (auto simp: assign_slice_def Let_def split: if_splits)

lemma assign_rows_length:
  "assign_rows sc ncols lo hi vs = Inr sc' \<Longrightarrow> length sc' = length sc"
  by (auto simp: assign_rows_def Let_def unflatten_def split: if_splits)

lemma assign_rows_fits:
  assumes "assign_rows sc ncols lo hi vs = Inr sc'"
    and "2 \<le> length vs" and "length vs = rows * ncols" and "hi - lo = rows" and "lo \<le> hi"
  shows "hi \<le> length sc"
proof (rule ccontr)
  assume "\<not> hi \<le> length sc"
  then have over: "length sc < hi" by simp
  let ?m = "max (min lo (length sc)) (min hi (length sc)) - min lo (length sc)"
  have pos: "ncols > 0" "rows > 0" using assms(2,3) by (cases ncols; cases rows; auto)+
  have m: "?m = length sc - lo" using over by simp
  have less: "?m < rows" using m over assms(4,5) pos by linarith
  from assms(1) assms(2) have e: "length vs = ?m * ncols"
    by (auto simp: assign_rows_def Let_def split: if_splits)
  have "rows * ncols = ?m * ncols" using assms(3) e by (rule trans [OF sym])
  with pos have "rows = ?m" by (simp only: mult_cancel2) simp
  with less show False by simp
qed

lemma evaluate_chunk_logged_Inr:
  assumes "evaluate_chunk (logged P) s toks b i = Inr s'"
  shows "pastTokens s' = pastTokens s + length (py_slice toks i (min (length toks) (i + b)))"
    and "snd (ctx s') = snd (ctx s) @
           [(py_slice toks i (min (length toks) (i + b)),
             min (nCtx s - int (length (py_slice toks i (min (length toks) (i + b)))))
                 (int (length (py_slice (inputIds s) 0 (pastTokens s)))))]"
    and "nCtx s' = nCtx s" and "length (inputIds s') = length (inputIds s)"
    and "length (scores s') = length (scores s)" and "nVocab s' = nVocab s"
    and "parameters s' = parameters s"
proof -
  obtain e log where c: "ctx s = (e, log)" by (cases "ctx s")
  from assms show "pastTokens s' = pastTokens s + length (py_slice toks i (min (length toks) (i + b)))"
    by (auto simp: evaluate_chunk_def logged_def Let_def c split: sum.splits if_splits)
  from assms show "snd (ctx s') = snd (ctx s) @
           [(py_slice toks i (min (length toks) (i + b)),
             min (nCtx s - int (length (py_slice toks i (min (length toks) (i + b)))))
                 (int (length (py_slice (inputIds s) 0 (pastTokens s)))))]"
    by (auto simp: evaluate_chunk_def logged_def Let_def c split: sum.splits if_splits)
  from assms show "nCtx s' = nCtx s"
    by (auto simp: evaluate_chunk_def logged_def Let_def c split: sum.splits if_splits)
  from assms show "length (inputIds s') = length (inputIds s)"
    by (auto simp: evaluate_chunk_def logged_def Let_def c
          dest: assign_slice_length split: sum.splits if_splits)
  from assms show "length (scores s') = length (scores s)"
    by (auto simp: evaluate_chunk_def logged_def Let_def c
          dest: assign_rows_length split: sum.splits if_splits)
  from assms show "nVocab s' = nVocab s"
    by (auto simp: evaluate_chunk_def logged_def Let_def c split: sum.splits if_splits)
  from assms show "parameters s' = parameters s"
    by (auto simp: evaluate_chunk_def logged_def Let_def c split: sum.splits if_splits)
qed

lemma assign_slice_error: "assign_slice xs lo hi vs = Inl e \<Longrightarrow> e = ValueError"
  by (simp add: assign_slice_def Let_def split: if_splits)

lemma assign_rows_error: "assign_rows sc ncols lo hi vs = Inl e \<Longrightarrow> e = ValueError"
  by (simp add: assign_rows_def Let_def split: if_splits)

lemma evaluate_chunk_logged_Inl:
  assumes "evaluate_chunk (logged P) s toks b i = Inl (err, s')"
  shows "err = RuntimeError \<or> err = ValueError"
    and "pastTokens s' = pastTokens s"
    and "length (snd (ctx s')) = Suc (length (snd (ctx s)))"
    and "nCtx s' = nCtx s"
proof -
  obtain e log where c: "ctx s = (e, log)" by (cases "ctx s")
  from assms show "err = RuntimeError \<or> err = ValueError"
    by (auto simp: evaluate_chunk_def logged_def Let_def c
          dest: assign_slice_error assign_rows_error split: sum.splits if_splits)
  from assms show "pastTokens s' = pastTokens s"
    by (auto simp: evaluate_chunk_def logged_def Let_def c split: sum.splits if_splits)
  from assms show "length (snd (ctx s')) = Suc (length (snd (ctx s)))"
    by (auto simp: evaluate_chunk_def logged_def Let_def c split: sum.splits if_splits)
  from assms show "nCtx s' = nCtx s"
    by (auto simp: evaluate_chunk_def logged_def Let_def c split: sum.splits if_splits)
qed

lemma evaluate_chunk_fits:
  assumes ok: "evaluate_chunk P s toks b i = Inr s'"
    and v: "2 \<le> nVocab s" and p: "pastTokens s \<le> length (scores s)"
  shows "pastTokens s' \<le> length (scores s)"
proof -
  let ?n = "length (py_slice toks i (min (length toks) (i + b)))"
  let ?rows = "if logitsAll (parameters s) then ?n else 1"
  let ?off = "if logitsAll (parameters s) then 0 else ?n - 1"
  let ?vs = "map (llama_get_logits P (snd (llama_eval P (ctx s) (py_slice toks i (min (length toks) (i + b))) (int ?n)
      (min (nCtx s - int ?n) (int (length (py_slice (inputIds s) 0 (pastTokens s)))))))) [0 ..< ?rows * nVocab s]"
  from ok obtain sc where a: "assign_rows (scores s) (nVocab s) (pastTokens s + ?off) (pastTokens s + ?n) ?vs = Inr sc"
    and p': "pastTokens s' = pastTokens s + ?n"
    by (auto simp: evaluate_chunk_def Let_def split: sum.splits if_splits prod.splits)
  show ?thesis
  proof (cases "?n = 0")
    case True
    with p p' show ?thesis by simp
  next
    case False
    then have rows: "?rows \<ge> 1" by (simp add: Suc_le_eq)
    have "2 \<le> ?rows * nVocab s" using rows v
      by (metis mult.commute mult_le_mono2 nat_mult_1_right order_trans)
    then have l2: "2 \<le> length ?vs" by simp
    have l3: "length ?vs = ?rows * nVocab s" by simp
    have "?n \<ge> 1" using False by (simp add: Suc_le_eq)
    then have d: "(pastTokens s + ?n) - (pastTokens s + ?off) = ?rows" by auto
    have le: "pastTokens s + ?off \<le> pastTokens s + ?n" by auto
    from assign_rows_fits [OF a l2 l3 d le] p' show ?thesis by simp
  qed
qed

lemma chunk_length:
  "length (py_slice toks (k * b) (min (length toks) (k * b + b))) = min (length toks) (k * b + b) - k * b"
  by (auto simp: py_slice_def)

lemma chunk_take_drop:
  "py_slice toks (k * b) (min (length toks) (k * b + b)) = take b (drop (k * b) toks)"
  by (auto simp: py_slice_def min_def)

lemma past_offset:
  assumes "nCtx s \<le> int (length (inputIds s))" and "1 \<le> c"
  shows "min (nCtx s - int c) (int (length (py_slice (inputIds s) 0 (pastTokens s))))
       = min (nCtx s - int c) (int (pastTokens s))"
  using assms by (auto simp: py_slice_def min_def)

lemma evaluate_loop_logged:
  assumes b: "0 < b"
  shows "m * b < length toks + b \<Longrightarrow> j \<le> m \<Longrightarrow> (j < m \<longrightarrow> pastTokens s = p0 + j * b) \<Longrightarrow>
         nCtx s \<le> int (length (inputIds s)) \<Longrightarrow>
         evaluate_loop (logged P) s toks b (map (\<lambda>k. k * b) [j ..< m]) = Inr s' \<Longrightarrow>
         (if j < m then pastTokens s' = p0 + min (length toks) (m * b) else s' = s) \<and>
         snd (ctx s') = snd (ctx s) @
           map (\<lambda>k. (take b (drop (k * b) toks),
                     min (nCtx s - int (length (take b (drop (k * b) toks)))) (int (p0 + k * b))))
             [j ..< m]"
proof (induction "m - j" arbitrary: j s)
  case 0
  then have "j = m" by simp
  with 0 show ?case by simp
next
  case (Suc d)
  then have jm: "j < m" by simp
  have up: "[j ..< m] = j # [Suc j ..< m]" using jm by (simp add: upt_conv_Cons)
  let ?c = "py_slice toks (j * b) (min (length toks) (j * b + b))"
  from Suc.prems(5) obtain s1 where
    c1: "evaluate_chunk (logged P) s toks b (j * b) = Inr s1"
    and rest: "evaluate_loop (logged P) s1 toks b (map (\<lambda>k. k * b) [Suc j ..< m]) = Inr s'"
    by (auto simp: up split: sum.splits)
  note f = evaluate_chunk_logged_Inr [OF c1]
  have jb: "j * b + b \<le> m * b"
  proof -
    have "Suc j \<le> m" using jm by simp
    then have "Suc j * b \<le> m * b" by (rule mult_le_mono1)
    then show ?thesis by (simp add: add.commute)
  qed
  with Suc.prems(1) have lt: "j * b < length toks" by linarith
  have clen: "length ?c = min (length toks) (j * b + b) - j * b" by (rule chunk_length)
  have cpos: "1 \<le> length ?c" using lt b clen by simp
  have p: "pastTokens s = p0 + j * b" using Suc.prems(3) jm by simp
  have entry: "snd (ctx s1) = snd (ctx s) @
      [(take b (drop (j * b) toks),
        min (nCtx s - int (length (take b (drop (j * b) toks)))) (int (p0 + j * b)))]"
    using f(2) past_offset [OF Suc.prems(4) cpos] p by (simp add: chunk_take_drop)
  have full: "Suc j < m \<Longrightarrow> length ?c = b"
  proof -
    assume "Suc j < m"
    then have "Suc (Suc j) \<le> m" by simp
    then have "Suc (Suc j) * b \<le> m * b" by (rule mult_le_mono1)
    with Suc.prems(1) have "j * b + b < length toks" by simp
    then show ?thesis using clen by simp
  qed
  have ih: "(if Suc j < m then pastTokens s' = p0 + min (length toks) (m * b) else s' = s1) \<and>
         snd (ctx s') = snd (ctx s1) @
           map (\<lambda>k. (take b (drop (k * b) toks),
                     min (nCtx s1 - int (length (take b (drop (k * b) toks)))) (int (p0 + k * b))))
             [Suc j ..< m]"
  proof (rule Suc.hyps(1))
    show "d = m - Suc j" using Suc.hyps(2) by simp
    show "m * b < length toks + b" by (rule Suc.prems(1))
    show "Suc j \<le> m" using jm by simp
    show "Suc j < m \<longrightarrow> pastTokens s1 = p0 + Suc j * b"
      using f(1) p full by (simp add: add.commute)
    show "nCtx s1 \<le> int (length (inputIds s1))" using f(3,4) Suc.prems(4) by simp
    show "evaluate_loop (logged P) s1 toks b (map (\<lambda>k. k * b) [Suc j ..< m]) = Inr s'" by (rule rest)
  qed
  have past: "pastTokens s' = p0 + min (length toks) (m * b)"
  proof (cases "Suc j < m")
    case True
    with ih show ?thesis by simp
  next
    case False
    then have m: "m = Suc j" using jm by simp
    from False ih have "s' = s1" by simp
    then have "pastTokens s' = p0 + j * b + (min (length toks) (j * b + b) - j * b)"
      using f(1) p clen by simp
    also have "\<dots> = p0 + min (length toks) (j * b + b)" using lt by simp
    finally show ?thesis by (simp add: m add.commute)
  qed
  from ih have "snd (ctx s') = snd (ctx s1) @
           map (\<lambda>k. (take b (drop (k * b) toks),
                     min (nCtx s - int (length (take b (drop (k * b) toks)))) (int (p0 + k * b))))
             [Suc j ..< m]" by (simp add: f(3))
  with entry past jm show ?case by (simp add: up)
qed

lemma range_step_bounds:
  fixes n b :: nat
  assumes "0 < b"
  shows "((n + b - 1) div b) * b < n + b" and "n \<le> ((n + b - 1) div b) * b"
proof -
  let ?q = "(n + b - 1) div b"
  have d: "?q * b + (n + b - 1) mod b = n + b - 1" by (simp add: div_mult_mod_eq)
  have r: "(n + b - 1) mod b < b" using assms by simp
  from d assms show "?q * b < n + b" by linarith
  from d r assms show "n \<le> ?q * b" by linarith
qed

lemma evaluate_chunk_window:
  assumes w: "window_ok s" and ok: "evaluate_chunk (logged P) s toks b i = Inr s'"
  shows "window_ok s'"
proof -
  note f = evaluate_chunk_logged_Inr [OF ok]
  from w have "2 \<le> nVocab s" "pastTokens s \<le> length (scores s)" by (auto simp: window_ok_def)
  from evaluate_chunk_fits [OF ok this] have "pastTokens s' \<le> length (scores s)" .
  with w f show ?thesis by (simp add: window_ok_def)
qed

lemma evaluate_loop_overflow:
  "window_ok s \<Longrightarrow>
   (\<forall>e s'. evaluate_loop (logged P) s toks b is = Inl (e, s') \<longrightarrow>
      (e = RuntimeError \<or> e = ValueError) \<and>
      length (snd (ctx s)) < length (snd (ctx s')) \<and> int (pastTokens s') \<le> nCtx s') \<and>
   (\<forall>s'. evaluate_loop (logged P) s toks b is = Inr s' \<longrightarrow> window_ok s')"
proof (induction "is" arbitrary: s)
  case Nil
  then show ?case by simp
next
  case (Cons i "is")
  show ?case
  proof (cases "evaluate_chunk (logged P) s toks b i")
    case (Inl x)
    obtain e s1 where x: "x = (e, s1)" by (cases x)
    note f = evaluate_chunk_logged_Inl [OF Inl [unfolded x]]
    from Cons.prems have "int (pastTokens s) \<le> nCtx s" by (simp add: window_ok_def)
    with f Inl x show ?thesis by auto
  next
    case (Inr s1)
    note f = evaluate_chunk_logged_Inr [OF Inr]
    have w1: "window_ok s1" by (rule evaluate_chunk_window [OF Cons.prems Inr])
    have grow: "length (snd (ctx s)) < length (snd (ctx s1))" using f(2) by simp
    from Cons.IH [OF w1] grow Inr show ?thesis by auto
  qed
qed

text \<open>
  C10. For every token list and every batch size \<open>b \<le> 0\<close>, \<open>evaluate\<close> returns normally
  and leaves the whole object unchanged (\<open>pastTokens\<close>, \<open>inputIds\<close>, \<open>scores\<close>, and the
  engine state behind the handle). The result is the same for every choice of the
  primitives, so the adapter's evaluate primitive is not consulted.
\<close>

theorem evaluate_nonpositive_batch_noop:
  "batch \<le> 0 \<Longrightarrow> evaluate P s toks batch = Inr s"
  by (simp add: evaluate_def)

theorem evaluate_nonpositive_batch_noop_witness:
  "(0::int) \<le> 0 \<and>
   evaluate (script_cpp [] byte_piece) (demo_model fresh demo_config 4) [5, 6, 7] 0
     = Inr (demo_model fresh demo_config 4)"
  using evaluate_nonpositive_batch_noop
    [of 0 "script_cpp [] byte_piece" "demo_model fresh demo_config 4" "[5, 6, 7]"]
  by simp

text \<open>
  C8. For every token sequence and every batch size \<open>b \<ge> 1\<close>, when \<open>evaluate\<close> returns
  successfully \<open>pastTokens\<close> is its prior value plus the number of ids passed in, and the
  adapter has been called once per chunk of \<open>b\<close> ids, in order, the \<open>k\<close>-th chunk with
  \<open>n_past = min (nCtx - chunk length) (tokens evaluated so far)\<close>, which is the prior
  counter plus \<open>k * b\<close>. The window array has at least \<open>nCtx\<close> entries, as \<open>_init\<close>
  allocates it. The calls are read off an engine that records them.
\<close>

theorem evaluate_counter_and_offsets:
  assumes "1 \<le> batch" and "nCtx s \<le> int (length (inputIds s))"
    and "evaluate (logged P) s toks batch = Inr s'"
  shows "pastTokens s' = pastTokens s + length toks \<and>
         snd (ctx s') = snd (ctx s) @
           map (\<lambda>k. (take (nat batch) (drop (k * nat batch) toks),
                     min (nCtx s - int (length (take (nat batch) (drop (k * nat batch) toks))))
                         (int (pastTokens s + k * nat batch))))
             [0 ..< (length toks + nat batch - 1) div nat batch]"
proof -
  let ?b = "nat batch"
  let ?m = "(length toks + ?b - 1) div ?b"
  have b: "0 < ?b" using assms(1) by simp
  from assms(1,3) have run:
    "evaluate_loop (logged P) s toks ?b (map (\<lambda>k. k * ?b) [0 ..< ?m]) = Inr s'"
    by (simp add: evaluate_def range_step_def)
  have bound: "?m * ?b < length toks + ?b" by (rule range_step_bounds(1) [OF b])
  have cover: "length toks \<le> ?m * ?b" by (rule range_step_bounds(2) [OF b])
  have init: "0 < ?m \<longrightarrow> pastTokens s = pastTokens s + 0 * ?b" by simp
  note r = evaluate_loop_logged [OF b bound le0 init assms(2) run]
  have "pastTokens s' = pastTokens s + length toks"
  proof (cases "0 < ?m")
    case True
    with r cover show ?thesis by (simp add: min_absorb1)
  next
    case False
    with cover have "length toks = 0" by simp
    with False r show ?thesis by simp
  qed
  with r show ?thesis by simp
qed

theorem evaluate_counter_and_offsets_witness:
  "(1::int) \<le> 2 \<and>
   nCtx (demo_logged demo_config 4)
     \<le> int (length (inputIds (demo_logged demo_config 4))) \<and>
   (\<exists>s'. evaluate (logged (script_cpp [] byte_piece)) (demo_logged demo_config 4)
           [1, 2, 3, 4, 5] 2 = Inr s' \<and>
         pastTokens s' = 5 \<and> snd (ctx s') = [([1, 2], 0), ([3, 4], 2), ([5], 4)])"
proof -
  let ?M = "demo_logged demo_config 4"
  let ?S = "?M\<lparr>ctx := (\<lparr>evals = [([1, 2], 0), ([3, 4], 2), ([5], 4)], mus = []\<rparr>,
                      [([1, 2], 0), ([3, 4], 2), ([5], 4)]),
              pastTokens := 5, inputIds := [1, 2, 3, 4, 5, 0, 0, 0],
              scores := [[0, 0, 0, 0], [1, 0, 0, 0], [0, 0, 0, 0], [1, 0, 0, 0],
                         [1, 0, 0, 0], [0, 0, 0, 0], [0, 0, 0, 0], [0, 0, 0, 0]]\<rparr>"
  have h1: "(1::int) \<le> 2" by simp
  have h2: "nCtx ?M \<le> int (length (inputIds ?M))"
    by (simp add: demo_logged_def demo_model_def demo_config_def)
  have h3: "evaluate (logged (script_cpp [] byte_piece)) ?M [1, 2, 3, 4, 5] 2 = Inr ?S"
    by code_simp
  have calls: "map (\<lambda>k. (take (nat 2) (drop (k * nat 2) [1, 2, 3, 4, 5 :: int]),
                     min (nCtx ?M - int (length (take (nat 2) (drop (k * nat 2) [1, 2, 3, 4, 5 :: int]))))
                         (int (pastTokens ?M + k * nat 2))))
             [0 ..< (length [1, 2, 3, 4, 5 :: int] + nat 2 - 1) div nat 2]
           = [([1, 2], 0), ([3, 4], 2), ([5], 4)]"
    by code_simp
  from evaluate_counter_and_offsets [OF h1 h2 h3]
  have "pastTokens ?S = pastTokens ?M + length [1, 2, 3, 4, 5 :: int]"
    and "snd (ctx ?S) = snd (ctx ?M) @ [([1, 2], 0), ([3, 4], 2), ([5], 4)]"
    unfolding calls by blast+
  then have "pastTokens ?S = 5" and "snd (ctx ?S) = [([1, 2], 0), ([3, 4], 2), ([5], 4)]"
    by (simp_all add: demo_logged_def demo_model_def)
  with h1 h2 h3 show ?thesis by blast
qed

text \<open>
  C3, as the code has it. \<open>evaluate\<close> has no capacity check of its own and no
  \<open>ContextOverflowError\<close>: whenever it raises, the error is the \<open>RuntimeError\<close> of a
  failed engine call or the \<open>ValueError\<close> of a window write that does not fit, and the
  adapter has been called at least once before. With the window arrays as \<open>_init\<close>
  allocates them and a vocabulary of at least two tokens, the write that does not fit
  stops the call before the counter moves, so \<open>pastTokens\<close> does not exceed \<open>nCtx\<close> in
  the state \<open>evaluate\<close> leaves, whether it returns or raises.
\<close>

theorem evaluate_overflow_surfaces_late:
  assumes "window_ok s"
  shows "(\<forall>e s'. evaluate (logged P) s toks batch = Inl (e, s') \<longrightarrow>
            (e = RuntimeError \<or> e = ValueError) \<and>
            length (snd (ctx s)) < length (snd (ctx s')) \<and> int (pastTokens s') \<le> nCtx s') \<and>
         (\<forall>s'. evaluate (logged P) s toks batch = Inr s' \<longrightarrow> int (pastTokens s') \<le> nCtx s')"
proof (cases "batch > 0")
  case True
  from evaluate_loop_overflow [OF assms, of P toks "nat batch" "range_step (length toks) (nat batch)"]
  show ?thesis using True by (auto simp: evaluate_def window_ok_def)
next
  case False
  with assms show ?thesis by (auto simp: evaluate_def window_ok_def)
qed

theorem evaluate_overflow_surfaces_late_witness:
  "window_ok (demo_logged (demo_config\<lparr>cfg_nCtx := 2\<rparr>) 4) \<and>
   (\<exists>s'. evaluate (logged (script_cpp [] byte_piece))
           (demo_logged (demo_config\<lparr>cfg_nCtx := 2\<rparr>) 4) [1, 2, 3] 3
           = Inl (ValueError, s') \<and>
         length (snd (ctx (demo_logged (demo_config\<lparr>cfg_nCtx := 2\<rparr>) 4))) < length (snd (ctx s')) \<and>
         int (pastTokens s') \<le> nCtx s')"
proof -
  let ?M = "demo_logged (demo_config\<lparr>cfg_nCtx := 2\<rparr>) 4"
  let ?S = "?M\<lparr>ctx := (\<lparr>evals = [([1, 2, 3], - 1)], mus = []\<rparr>, [([1, 2, 3], - 1)])\<rparr>"
  have h: "window_ok ?M"
    by (simp add: window_ok_def demo_logged_def demo_model_def demo_config_def)
  have e: "evaluate (logged (script_cpp [] byte_piece)) ?M [1, 2, 3] 3 = Inl (ValueError, ?S)"
    by code_simp
  from evaluate_overflow_surfaces_late [OF h, of "script_cpp [] byte_piece" "[1, 2, 3]" 3] e
  have "length (snd (ctx ?M)) < length (snd (ctx ?S)) \<and> int (pastTokens ?S) \<le> nCtx ?S"
    by blast
  with h e show ?thesis by blast
qed

text \<open>
  C3, as stated, fails: with a window of 2 tokens and 3 tokens passed in one batch,
  the adapter is called with the whole chunk (and \<open>n_past = -1\<close>) before anything is
  raised, and what is raised then is numpy's \<open>ValueError\<close>.
\<close>

theorem evaluate_overflow_counterexample:
  "map_sum (\<lambda>(e, s'). (e, evals (ctx s'), pastTokens s')) (\<lambda>s'. ())
     (evaluate (script_cpp [] byte_piece) (demo_model fresh (demo_config\<lparr>cfg_nCtx := 2\<rparr>) 4)
        [1, 2, 3] 3)
   = Inl (ValueError, [([1, 2, 3], - 1)], 0)"
  by code_simp

section \<open>Properties of \<open>sampleTokenWithModel\<close>\<close>

lemma np_index_in_range: "0 \<le> t \<Longrightarrow> t < int n \<Longrightarrow> np_index n t = Some (nat t)"
  by (simp add: np_index_def)

lemma apply_logit_bias_products:
  "distinct (map fst bias) \<Longrightarrow> \<forall>(t, b) \<in> set bias. 0 \<le> t \<and> t < int (length logits) \<Longrightarrow>
   apply_logit_bias logits bias =
     Inr (map (\<lambda>i. case map_of bias (int i) of Some b \<Rightarrow> logits ! i * b | None \<Rightarrow> logits ! i)
            [0 ..< length logits])"
proof (induction bias arbitrary: logits)
  case Nil
  then show ?case by (simp add: map_nth)
next
  case (Cons tb rest)
  obtain t b where tb: "tb = (t, b)" by (cases tb)
  from Cons.prems tb have t: "0 \<le> t" "t < int (length logits)" by auto
  let ?L = "logits[nat t := logits ! nat t * b]"
  have d: "distinct (map fst rest)" and notin: "t \<notin> fst ` set rest"
    using Cons.prems(1) tb by auto
  have r: "\<forall>(t', b') \<in> set rest. 0 \<le> t' \<and> t' < int (length ?L)"
    using Cons.prems(2) by auto
  have none: "map_of rest t = None"
    using notin by (simp add: map_of_eq_None_iff)
  have "apply_logit_bias logits (tb # rest) = apply_logit_bias ?L rest"
    using t by (simp add: tb np_index_in_range)
  also have "\<dots> = Inr (map (\<lambda>i. case map_of rest (int i) of Some b' \<Rightarrow> ?L ! i * b' | None \<Rightarrow> ?L ! i)
            [0 ..< length ?L])"
    by (rule Cons.IH [OF d r])
  also have "\<dots> = Inr (map (\<lambda>i. case map_of (tb # rest) (int i) of Some b' \<Rightarrow> logits ! i * b' | None \<Rightarrow> logits ! i)
            [0 ..< length logits])"
  proof -
    have "(case map_of rest (int i) of Some b' \<Rightarrow> ?L ! i * b' | None \<Rightarrow> ?L ! i)
        = (case map_of (tb # rest) (int i) of Some b' \<Rightarrow> logits ! i * b' | None \<Rightarrow> logits ! i)"
      if "i < length logits" for i
    proof (cases "int i = t")
      case True
      then have "i = nat t" by simp
      with True that none show ?thesis by (simp add: tb)
    next
      case False
      then have "nat t \<noteq> i" using t by auto
      then have "?L ! i = logits ! i" by simp
      with False show ?thesis by (simp add: tb split: option.splits)
    qed
    then show ?thesis by simp
  qed
  finally show ?case .
qed

text \<open>
  C7. The bias pass multiplies: for a logit-bias mapping (distinct keys) over token ids of
  the vocabulary, the pass succeeds, every \<open>(token, bias)\<close> entry leaves that token's
  logit at its old value times \<open>bias\<close>, and every other logit is unchanged.
\<close>

theorem logit_bias_is_multiplicative:
  assumes "distinct (map fst bias)"
    and "\<forall>(t, b) \<in> set bias. 0 \<le> t \<and> t < int (length logits)"
  shows "\<exists>logits'. apply_logit_bias logits bias = Inr logits' \<and>
           length logits' = length logits \<and>
           (\<forall>(t, b) \<in> set bias. logits' ! nat t = logits ! nat t * b) \<and>
           (\<forall>i < length logits. int i \<notin> fst ` set bias \<longrightarrow> logits' ! i = logits ! i)"
proof -
  let ?R = "map (\<lambda>i. case map_of bias (int i) of Some b \<Rightarrow> logits ! i * b | None \<Rightarrow> logits ! i)
            [0 ..< length logits]"
  have eq: "apply_logit_bias logits bias = Inr ?R"
    by (rule apply_logit_bias_products [OF assms])
  have a: "?R ! nat t = logits ! nat t * b" if "(t, b) \<in> set bias" for t b
  proof -
    from that assms(2) have t: "0 \<le> t" "t < int (length logits)" by auto
    from that assms(1) have "map_of bias t = Some b" by simp
    with t show ?thesis by simp
  qed
  have b: "?R ! i = logits ! i" if "i < length logits" "int i \<notin> fst ` set bias" for i
  proof -
    from that(2) have "map_of bias (int i) = None" by (simp add: map_of_eq_None_iff)
    with that(1) show ?thesis by simp
  qed
  show ?thesis using eq a b by auto
qed

text \<open>
  The instance of the spec: bias \<open>2.0\<close> for token id 5 and baseline logit \<open>1.0\<close> give
  \<open>2.0\<close>, and this is the logit of candidate 5 in the array handed to strategy selection.
\<close>

theorem logit_bias_is_multiplicative_witness:
  "distinct (map fst [(5 :: int, 2 :: real)]) \<and>
   (0 :: int) \<le> 5 \<and> (5 :: int) < int (length [0, 0, 0, 0, 0, 1, 0, 0 :: real]) \<and>
   (\<exists>logits'. apply_logit_bias [0, 0, 0, 0, 0, 1, 0, 0] [(5, 2)] = Inr logits' \<and>
        logits' ! 5 = 2 \<and> logits' ! 4 = 0) \<and>
   map_sum fst (\<lambda>(cs, s'). cs ! 5)
     (prepare_candidates (script_cpp [] byte_piece)
        (demo_sampling (demo_config\<lparr>logit_bias := [(5, 2)]\<rparr>) [0, 0, 0, 0, 0, 1, 0, 0]))
     = Inr (5, 2, 0)"
proof -
  let ?bias = "[(5 :: int, 2 :: real)]"
  let ?logits = "[0, 0, 0, 0, 0, 1, 0, 0 :: real]"
  have h1: "distinct (map fst ?bias)" by simp
  have h2: "\<forall>(t, b) \<in> set ?bias. 0 \<le> t \<and> t < int (length ?logits)" by simp
  from logit_bias_is_multiplicative [OF h1 h2]
  obtain logits' where r: "apply_logit_bias ?logits ?bias = Inr logits'"
    and m: "\<forall>(t, b) \<in> set ?bias. logits' ! nat t = ?logits ! nat t * b"
    and u: "\<forall>i < length ?logits. int i \<notin> fst ` set ?bias \<longrightarrow> logits' ! i = ?logits ! i"
    by blast
  from m have five: "logits' ! 5 = 2" by simp
  from u have "int 4 \<notin> fst ` set ?bias \<longrightarrow> logits' ! 4 = ?logits ! 4" by simp
  then have four: "logits' ! 4 = 0" by simp
  have c: "map_sum fst (\<lambda>(cs, s'). cs ! 5)
     (prepare_candidates (script_cpp [] byte_piece)
        (demo_sampling (demo_config\<lparr>logit_bias := [(5, 2)]\<rparr>) [0, 0, 0, 0, 0, 1, 0, 0]))
     = Inr (5, 2, 0)"
    by code_simp
  have h3: "(0 :: int) \<le> 5 \<and> (5 :: int) < int (length ?logits)" by simp
  from h1 h3 r five four c show ?thesis by blast
qed

lemma greedy_best_dominates:
  "dominates (greedy_best b cs) b \<and> (\<forall>(i, l, p) \<in> set cs. dominates (greedy_best b cs) (i, l))"
proof (induction cs arbitrary: b)
  case Nil
  show ?case by (simp add: dominates_def)
next
  case (Cons c cs)
  obtain i l p where c: "c = (i, l, p)" by (cases c)
  let ?b = "if l > snd b \<or> (l = snd b \<and> i < fst b) then (i, l) else b"
  have step: "greedy_best b (c # cs) = greedy_best ?b cs" by (simp add: c)
  have ih: "dominates (greedy_best ?b cs) ?b"
       "\<forall>(i, l, p) \<in> set cs. dominates (greedy_best ?b cs) (i, l)"
    using Cons.IH [of ?b] by auto
  have "dominates ?b b" "dominates ?b (i, l)"
    by (auto simp: dominates_def)
  with ih(1) have "dominates (greedy_best ?b cs) b" "dominates (greedy_best ?b cs) (i, l)"
    by (auto simp: dominates_def split: if_splits)
  with ih(2) show ?case unfolding step by (auto simp: c)
qed

lemma greedy_best_member:
  "greedy_best b cs = b \<or> (\<exists>p. (fst (greedy_best b cs), snd (greedy_best b cs), p) \<in> set cs)"
proof (induction cs arbitrary: b)
  case Nil
  show ?case by simp
next
  case (Cons c cs)
  obtain i l p where c: "c = (i, l, p)" by (cases c)
  show ?case using Cons.IH [of "if l > snd b \<or> (l = snd b \<and> i < fst b) then (i, l) else b"]
    by (auto simp: c split: if_splits)
qed

lemma greedy_argmax:
  assumes "llama_sample_token_greedy cs = Some t"
  shows "\<exists>l p. (t, l, p) \<in> set cs \<and> (\<forall>(i', l', p') \<in> set cs. l' < l \<or> (l' = l \<and> t \<le> i'))"
proof -
  from assms obtain i l p rest where cs: "cs = (i, l, p) # rest"
    and t: "t = fst (greedy_best (i, l) rest)"
    by (auto simp: llama_sample_token_greedy_def split: list.splits)
  let ?r = "greedy_best (i, l) rest"
  have dom: "dominates ?r (i, l)" "\<forall>(i', l', p') \<in> set rest. dominates ?r (i', l')"
    using greedy_best_dominates [of "(i, l)" rest] by auto
  have mem: "\<exists>p'. (fst ?r, snd ?r, p') \<in> set cs"
    using greedy_best_member [of "(i, l)" rest] by (auto simp: cs)
  then obtain p' where "(t, snd ?r, p') \<in> set cs" using t by auto
  moreover have "\<forall>(i', l', p') \<in> set cs. l' < snd ?r \<or> (l' = snd ?r \<and> t \<le> i')"
    using dom by (auto simp: cs t dominates_def)
  ultimately show ?thesis by blast
qed

lemma prepare_candidates_parameters:
  "prepare_candidates P s = Inr (cs, s1) \<Longrightarrow> parameters s1 = parameters s"
  by (auto simp: prepare_candidates_def Let_def split: sum.splits if_splits)

lemma prepare_candidates_retune:
  "prepare_candidates P (retune m k q s) =
     map_sum (\<lambda>(e, s'). (e, retune m k q s')) (\<lambda>(cs, s'). (cs, retune m k q s'))
       (prepare_candidates P s)"
  by (auto simp: prepare_candidates_def retune_def Let_def split: sum.splits if_splits)

lemma select_token_greedy:
  "temperature (parameters s) = 0 \<Longrightarrow>
   select_token P s cs =
     (case llama_sample_token_greedy cs of None \<Rightarrow> Inl (EngineFault, s) | Some t \<Rightarrow> Inr (t, s))"
  by (simp add: select_token_def)

text \<open>
  C6. With \<open>temperature = 0\<close>, \<open>sampleTokenWithModel\<close> is the greedy pick on the
  penalised candidates: it returns a token whose penalised logit is maximal and whose id
  is the lowest among the candidates with that logit, and the token (or the error) is
  the same for all \<open>mirostat\<close>, \<open>top_k\<close> and \<open>top_p\<close> settings. The greedy primitive
  itself is modelled from the spec.
\<close>

theorem zero_temperature_is_greedy:
  assumes "temperature (parameters s) = 0"
  shows "sampleTokenWithModel P s =
           (case prepare_candidates P s of
              Inl e \<Rightarrow> Inl e
            | Inr (cs, s1) \<Rightarrow>
                (case llama_sample_token_greedy cs of
                   None \<Rightarrow> Inl (EngineFault, s1)
                 | Some t \<Rightarrow> Inr (t, s1))) \<and>
         (\<forall>t s'. sampleTokenWithModel P s = Inr (t, s') \<longrightarrow>
            (\<exists>cs l p. prepare_candidates P s = Inr (cs, s') \<and> (t, l, p) \<in> set cs \<and>
               (\<forall>(i', l', p') \<in> set cs. l' < l \<or> (l' = l \<and> t \<le> i')))) \<and>
         (\<forall>m k q. map_sum fst fst (sampleTokenWithModel P (retune m k q s))
                    = map_sum fst fst (sampleTokenWithModel P s))"
proof -
  have eq: "sampleTokenWithModel P s =
           (case prepare_candidates P s of
              Inl e \<Rightarrow> Inl e
            | Inr (cs, s1) \<Rightarrow>
                (case llama_sample_token_greedy cs of
                   None \<Rightarrow> Inl (EngineFault, s1)
                 | Some t \<Rightarrow> Inr (t, s1)))" if "temperature (parameters s) = 0" for s :: "'a LlamaModel"
    using that
    by (auto simp: sampleTokenWithModel_def select_token_greedy
          dest: prepare_candidates_parameters split: sum.splits)
  have best: "\<exists>cs l p. prepare_candidates P s = Inr (cs, s') \<and> (t, l, p) \<in> set cs \<and>
               (\<forall>(i', l', p') \<in> set cs. l' < l \<or> (l' = l \<and> t \<le> i'))"
    if "sampleTokenWithModel P s = Inr (t, s')" for t s'
  proof -
    from that obtain cs where p: "prepare_candidates P s = Inr (cs, s')"
      and g: "llama_sample_token_greedy cs = Some t"
      unfolding eq [OF assms] by (auto split: sum.splits option.splits)
    from greedy_argmax [OF g] p show ?thesis by blast
  qed
  have indep: "map_sum fst fst (sampleTokenWithModel P (retune m k q s))
                    = map_sum fst fst (sampleTokenWithModel P s)" for m k q
  proof -
    have "temperature (parameters (retune m k q s)) = 0"
      using assms by (simp add: retune_def)
    from eq [OF this] eq [OF assms] show ?thesis
      by (auto simp: prepare_candidates_retune split: sum.splits option.splits)
  qed
  from eq [OF assms] best indep show ?thesis by blast
qed

theorem zero_temperature_is_greedy_witness:
  "temperature (parameters (demo_sampling demo_config [0, 3, 3, 1])) = 0 \<and>
   map_sum fst fst (sampleTokenWithModel (script_cpp [] byte_piece)
      (demo_sampling demo_config [0, 3, 3, 1])) = Inr 1 \<and>
   map_sum fst fst (sampleTokenWithModel (script_cpp [] byte_piece)
      (retune 1 5 (1 / 2) (demo_sampling demo_config [0, 3, 3, 1]))) = Inr 1"
proof -
  let ?S = "demo_sampling demo_config [0, 3, 3, 1]"
  let ?P = "script_cpp [] byte_piece"
  have h: "temperature (parameters ?S) = 0"
    by (simp add: demo_sampling_def demo_model_def demo_config_def)
  have v: "map_sum fst fst (sampleTokenWithModel ?P ?S) = Inr 1" by code_simp
  from zero_temperature_is_greedy [OF h, of ?P]
  have "map_sum fst fst (sampleTokenWithModel ?P (retune 1 5 (1 / 2) ?S))
          = map_sum fst fst (sampleTokenWithModel ?P ?S)"
    by blast
  with h v show ?thesis by simp
qed

section \<open>Mirostat state\<close>

lemma pin_mu_fields:
  "llama_eval (pin_mu P) = llama_eval P"
  "llama_get_logits (pin_mu P) = llama_get_logits P"
  "llama_tokenize (pin_mu P) = llama_tokenize P"
  "llama_token_bos (pin_mu P) = llama_token_bos P"
  "llama_token_to_piece (pin_mu P) = llama_token_to_piece P"
  "llama_sample_repetition_penalties (pin_mu P) = llama_sample_repetition_penalties P"
  "llama_sample_temperature (pin_mu P) = llama_sample_temperature P"
  "llama_sample_top_k (pin_mu P) = llama_sample_top_k P"
  "llama_sample_tail_free (pin_mu P) = llama_sample_tail_free P"
  "llama_sample_typical (pin_mu P) = llama_sample_typical P"
  "llama_sample_top_p (pin_mu P) = llama_sample_top_p P"
  "llama_sample_token (pin_mu P) = llama_sample_token P"
  by (simp_all add: pin_mu_def)

lemma pin_mu_mirostat:
  "llama_sample_token_mirostat (pin_mu P) e c tau eta mu m =
     (case llama_sample_token_mirostat P e c tau eta (2 * tau) m of (tok, mu', e') \<Rightarrow> (tok, 0, e'))"
  "llama_sample_token_mirostat_v2 (pin_mu P) e c tau eta mu =
     (case llama_sample_token_mirostat_v2 P e c tau eta (2 * tau) of (tok, mu', e') \<Rightarrow> (tok, 0, e'))"
  by (simp_all add: pin_mu_def)

lemma evaluate_chunk_pin_mu: "evaluate_chunk (pin_mu P) s toks b i = evaluate_chunk P s toks b i"
  unfolding evaluate_chunk_def pin_mu_fields by (rule refl)

lemma evaluate_loop_pin_mu: "evaluate_loop (pin_mu P) s toks b is = evaluate_loop P s toks b is"
  by (induction "is" arbitrary: s) (simp_all add: evaluate_chunk_pin_mu cong: sum.case_cong)

lemma evaluate_pin_mu: "evaluate (pin_mu P) s toks batch = evaluate P s toks batch"
  unfolding evaluate_def evaluate_loop_pin_mu by (rule refl)

lemma prepare_candidates_pin_mu: "prepare_candidates (pin_mu P) s = prepare_candidates P s"
  unfolding prepare_candidates_def pin_mu_fields by (rule refl)

lemma select_token_pin_mu: "select_token (pin_mu P) s cs = select_token P s cs"
proof -
  have m1: "(case llama_sample_token_mirostat (pin_mu P) e c tau eta (2 * tau) m of
               (tok, mu', e') \<Rightarrow> f tok e')
          = (case llama_sample_token_mirostat P e c tau eta (2 * tau) m of
               (tok, mu', e') \<Rightarrow> f tok e')" for e c tau eta m and f :: "token \<Rightarrow> 'a \<Rightarrow> 'b"
    by (simp add: pin_mu_mirostat split: prod.splits)
  have m2: "(case llama_sample_token_mirostat_v2 (pin_mu P) e c tau eta (2 * tau) of
               (tok, mu', e') \<Rightarrow> f tok e')
          = (case llama_sample_token_mirostat_v2 P e c tau eta (2 * tau) of
               (tok, mu', e') \<Rightarrow> f tok e')" for e c tau eta and f :: "token \<Rightarrow> 'a \<Rightarrow> 'b"
    by (simp add: pin_mu_mirostat split: prod.splits)
  show ?thesis
    unfolding select_token_def Let_def pin_mu_fields m1 m2 by (rule refl)
qed

lemma sampleTokenWithModel_pin_mu: "sampleTokenWithModel (pin_mu P) s = sampleTokenWithModel P s"
  unfolding sampleTokenWithModel_def prepare_candidates_pin_mu select_token_pin_mu by (rule refl)

lemma generateTokens_pin_mu: "generateTokens (pin_mu P) s toks = generateTokens P s toks"
  unfolding generateTokens_def evaluate_pin_mu sampleTokenWithModel_pin_mu by (rule refl)

lemma tokenToByte_pin_mu: "tokenToByte (pin_mu P) t = tokenToByte P t"
  unfolding tokenToByte_def pin_mu_fields by (rule refl)

lemma concat_pieces_pin_mu: "concat_pieces (pin_mu P) buf ts = concat_pieces P buf ts"
  by (induction ts arbitrary: buf) (simp_all add: tokenToByte_pin_mu cong: sum.case_cong)

lemma tokensToString_pin_mu: "tokensToString (pin_mu P) ts = tokensToString P ts"
  unfolding tokensToString_def concat_pieces_pin_mu by (rule refl)

lemma loop_body_pin_mu: "loop_body (pin_mu P) enc s g t = loop_body P enc s g t"
  unfolding loop_body_def tokensToString_pin_mu tokenToByte_pin_mu by (rule refl)

lemma generate_loop_pin_mu:
  "generate_loop fuel (pin_mu P) enc s pending g = generate_loop fuel P enc s pending g"
proof (induction fuel arbitrary: s pending g)
  case 0
  show ?case by simp
next
  case (Suc fuel)
  show ?case
    unfolding generate_loop.simps generateTokens_pin_mu loop_body_pin_mu Suc.IH by (rule refl)
qed

lemma tokenizeFull_pin_mu: "tokenizeFull (pin_mu P) s inp bos special = tokenizeFull P s inp bos special"
  unfolding tokenizeFull_def pin_mu_fields by (rule refl)

text \<open>
  C1, as the code has it. \<open>mirostatMU\<close> is a local of \<open>sampleTokenWithModel\<close>: every
  sampling step with mirostat mode 1 or 2 hands the primitive \<open>mu = 2 * tau\<close>, and the
  value the primitive writes back is never read. So each sampling step, and with it a
  whole generation call, behaves the same on an engine whose mirostat primitives
  disregard the \<open>mu\<close> they are handed in favour of \<open>2 * tau\<close> and write back \<open>0\<close>.
\<close>

theorem mirostat_mu_is_per_step:
  "sampleTokenWithModel (pin_mu P) s = sampleTokenWithModel P s \<and>
   generate fuel (pin_mu P) s = generate fuel P s"
proof -
  have "generate fuel (pin_mu P) s = generate fuel P s"
    unfolding generate_def generate_loop_pin_mu tokenizeFull_pin_mu pin_mu_fields by (rule refl)
  then show ?thesis by (simp add: sampleTokenWithModel_pin_mu)
qed

text \<open>
  C1, as stated, fails: a generation call with mirostat mode 1, \<open>tau = 2\<close> and
  \<open>eta = 1\<close> samples twice. The scripted primitive writes back \<open>mu - eta = 3\<close> at the first
  step; the second step hands it \<open>4\<close> again, as the engine's record of the \<open>mu\<close> it
  received shows.
\<close>

theorem mirostat_mu_counterexample:
  "map_option (map_sum fst (\<lambda>(str, s'). mus (ctx s')))
     (generate 5 (script_cpp [97, 97] byte_piece)
        (demo_model fresh (demo_config\<lparr>temperature := 1, mirostat := 1\<rparr>) 4))
   = Some (Inr [4, 4])"
  by code_simp

section \<open>Prompt length\<close>

text \<open>
  C4, as the code has it. When the tokenized prompt (or the single beginning-of-sequence
  token that stands for an empty prompt) has at least \<open>parameters.nCtx\<close> tokens,
  \<open>generate\<close> returns the empty string at once: the object, engine state included, is
  unchanged for every engine and whatever the fuel, so nothing is evaluated or sampled.
  No exception is raised.
\<close>

theorem generate_long_prompt_returns_empty:
  assumes "(if prompt (parameters s) \<noteq> []
            then tokenizeFull P s (prompt (parameters s)) False True
            else Inr [llama_token_bos P (ctx s)]) = Inr toks"
    and "cfg_nCtx (parameters s) \<le> int (length toks)"
  shows "generate fuel P s = Some (Inr ([], s))"
  using assms by (simp add: generate_def)

theorem generate_long_prompt_returns_empty_witness:
  "(if prompt (parameters (demo_model fresh (demo_config\<lparr>prompt := [72, 101, 108, 108, 111, 32, 116, 104, 101, 114, 101]\<rparr>) 4)) \<noteq> []
    then tokenizeFull (script_cpp [] byte_piece)
           (demo_model fresh (demo_config\<lparr>prompt := [72, 101, 108, 108, 111, 32, 116, 104, 101, 114, 101]\<rparr>) 4)
           (prompt (parameters (demo_model fresh (demo_config\<lparr>prompt := [72, 101, 108, 108, 111, 32, 116, 104, 101, 114, 101]\<rparr>) 4)))
           False True
    else Inr [llama_token_bos (script_cpp [] byte_piece)
                (ctx (demo_model fresh (demo_config\<lparr>prompt := [72, 101, 108, 108, 111, 32, 116, 104, 101, 114, 101]\<rparr>) 4))])
     = Inr [72, 101, 108, 108, 111, 32, 116, 104] \<and>
   cfg_nCtx (parameters (demo_model fresh (demo_config\<lparr>prompt := [72, 101, 108, 108, 111, 32, 116, 104, 101, 114, 101]\<rparr>) 4))
     \<le> int (length [72, 101, 108, 108, 111, 32, 116, 104 :: int]) \<and>
   generate 0 (script_cpp [] byte_piece)
     (demo_model fresh (demo_config\<lparr>prompt := [72, 101, 108, 108, 111, 32, 116, 104, 101, 114, 101]\<rparr>) 4)
     = Some (Inr ([], demo_model fresh (demo_config\<lparr>prompt := [72, 101, 108, 108, 111, 32, 116, 104, 101, 114, 101]\<rparr>) 4))"
proof -
  let ?M = "demo_model fresh (demo_config\<lparr>prompt := [72, 101, 108, 108, 111, 32, 116, 104, 101, 114, 101]\<rparr>) 4"
  let ?P = "script_cpp [] byte_piece"
  have h1: "(if prompt (parameters ?M) \<noteq> []
            then tokenizeFull ?P ?M (prompt (parameters ?M)) False True
            else Inr [llama_token_bos ?P (ctx ?M)]) = Inr [72, 101, 108, 108, 111, 32, 116, 104]"
    by code_simp
  have h2: "cfg_nCtx (parameters ?M) \<le> int (length [72, 101, 108, 108, 111, 32, 116, 104 :: int])"
    by (simp add: demo_model_def demo_config_def)
  from generate_long_prompt_returns_empty [OF h1 h2, of 0] h1 h2 show ?thesis by blast
qed

text \<open>
  C4, as stated, fails: with a context of one token the beginning-of-sequence token of
  an empty prompt already fills it, and the call returns normally, with the empty string
  a generation that produces no text returns as well.
\<close>

theorem generate_long_prompt_counterexample:
  "map_option (map_sum fst fst)
     (generate 3 (script_cpp [] byte_piece) (demo_model fresh (demo_config\<lparr>cfg_nCtx := 1\<rparr>) 4))
   = Some (Inr [])"
  by code_simp

section \<open>The stream decoder in \<open>generate\<close>\<close>

lemma bytes_find_Some:
  assumes "bytes_find s sub = Some i"
  shows "take (length sub) (drop i s) = sub"
    and "\<forall>j<i. take (length sub) (drop j s) \<noteq> sub"
    and "i + length sub \<le> length s"
proof -
  from assms obtain k where k: "k < length [0 ..< Suc (length s)]"
    and hit: "take (length sub) (drop ([0 ..< Suc (length s)] ! k) s) = sub"
    and ik: "i = [0 ..< Suc (length s)] ! k"
    and first: "\<forall>j<k. take (length sub) (drop ([0 ..< Suc (length s)] ! j) s) \<noteq> sub"
    unfolding bytes_find_def find_Some_iff by blast
  from k have kl: "k \<le> length s" by simp
  then have ki: "i = k" using ik by (simp add: nth_upt del: upt_Suc)
  from hit ik show a: "take (length sub) (drop i s) = sub" by simp
  show "\<forall>j<i. take (length sub) (drop j s) \<noteq> sub"
  proof (intro allI impI)
    fix j assume "j < i"
    then have jk: "j < k" using ki by simp
    then have "[0 ..< Suc (length s)] ! j = j" using kl by (simp add: nth_upt del: upt_Suc)
    with first jk show "take (length sub) (drop j s) \<noteq> sub" by metis
  qed
  from arg_cong [OF a, of length] have "min (length s - i) (length sub) = length sub"
    by (simp only: length_take length_drop)
  then show "i + length sub \<le> length s" using kl ki by linarith
qed

lemma occurrence_split:
  assumes "take (length sub) (drop i xs) = sub"
  shows "xs = take i xs @ sub @ drop (i + length sub) xs"
proof -
  have "drop i xs = take (length sub) (drop i xs) @ drop (length sub) (drop i xs)"
    by (simp only: append_take_drop_id)
  also have "\<dots> = sub @ drop (i + length sub) xs"
    by (simp only: assms drop_drop add.commute)
  finally have "take i xs @ drop i xs = take i xs @ sub @ drop (i + length sub) xs"
    by (simp only:)
  then show ?thesis by (simp only: append_take_drop_id)
qed

text \<open>
  C9. When the sampled token is no stop token, no incomplete-byte countdown is pending
  after it, and some configured anti-prompt occurs in the buffered bytes, the loop is
  left with the buffer cut at the first occurrence of the first configured anti-prompt
  that occurs: what is kept is exactly the bytes before that occurrence, and
  \<open>finalString\<close> is untouched, so \<open>generate\<close> returns the decoded kept bytes.
\<close>

theorem anti_prompt_truncates:
  assumes "t \<noteq> EOSToken s" and "t \<notin> set exitTokens"
    and "tokenToByte P t = Inr piece"
    and "incomplete_scan (incompleteFix g) (tempBytes g @ piece) \<le> 0"
    and "a \<in> set enc" and "bytes_find (tempBytes g @ piece) a \<noteq> None"
  shows "\<exists>first rest i g'.
           filter (\<lambda>a. bytes_find (tempBytes g @ piece) a \<noteq> None) enc = first # rest \<and>
           loop_body P enc s g t = Inr (True, g') \<and>
           tempBytes g' = take i (tempBytes g @ piece) \<and>
           tempBytes g @ piece = tempBytes g' @ first @ drop (i + length first) (tempBytes g @ piece) \<and>
           (\<forall>j<i. take (length first) (drop j (tempBytes g @ piece)) \<noteq> first) \<and>
           finalString g' = finalString g \<and> tokens g' = tokens g @ [t]"
proof -
  define tb where "tb = tempBytes g @ piece"
  let ?F = "filter (\<lambda>a. bytes_find tb a \<noteq> None) enc"
  from assms(5,6) have "a \<in> set ?F" by (simp add: tb_def)
  then obtain first rest where F: "?F = first # rest"
    by (cases ?F) (auto simp: filter_empty_conv)
  then have "first \<in> set ?F" by simp
  then obtain i where i: "bytes_find tb first = Some i" by auto
  note b = bytes_find_Some [OF i]
  define g' where "g' = g\<lparr>tokens := tokens g @ [t], tempBytes := take i tb,
               incompleteFix := incomplete_scan (incompleteFix g) tb\<rparr>"
  have nofix: "\<not> 0 < incomplete_scan (incompleteFix g) tb" using assms(4) by (simp add: tb_def)
  have run: "loop_body P enc s g t = Inr (True, g')"
    using assms(1,2,3) nofix
    by (simp add: loop_body_def Let_def tb_def [symmetric] F i py_slice_def g'_def
          del: not_None_eq)
  have split: "tb = take i tb @ first @ drop (i + length first) tb"
    by (rule occurrence_split [OF b(1)])
  have sel: "tempBytes g' = take i tb" "finalString g' = finalString g"
    "tokens g' = tokens g @ [t]"
    by (simp_all add: g'_def)
  have "?F = first # rest \<and> loop_body P enc s g t = Inr (True, g') \<and>
        tempBytes g' = take i tb \<and>
        tb = tempBytes g' @ first @ drop (i + length first) tb \<and>
        (\<forall>j<i. take (length first) (drop j tb) \<noteq> first) \<and>
        finalString g' = finalString g \<and> tokens g' = tokens g @ [t]"
    using F run split b(2) sel by (simp only: simp_thms)
  then show ?thesis unfolding tb_def by blast
qed

text \<open>
  The instance of the spec: the buffer holds \<open>Hello Worl\<close>, the token adds \<open>d\<close>, the
  anti-prompt is \<open>World\<close>; the buffer is cut to \<open>Hello \<close> and the loop is left. A whole
  generation call that samples \<open>Hello \<close> and \<open>World\<close> returns \<open>Hello \<close>.
\<close>

theorem anti_prompt_truncates_witness:
  "(100 :: int) \<noteq> EOSToken (demo_model fresh demo_config 4) \<and> (100 :: int) \<notin> set exitTokens \<and>
   tokenToByte (script_cpp [] byte_piece) 100 = Inr [100] \<and>
   incomplete_scan 0 ([72, 101, 108, 108, 111, 32, 87, 111, 114, 108] @ [100]) \<le> 0 \<and>
   bytes_find ([72, 101, 108, 108, 111, 32, 87, 111, 114, 108] @ [100]) [87, 111, 114, 108, 100] \<noteq> None \<and>
   loop_body (script_cpp [] byte_piece) [[87, 111, 114, 108, 100]] (demo_model fresh demo_config 4)
     \<lparr>tokens = [1], tempBytes = [72, 101, 108, 108, 111, 32, 87, 111, 114, 108],
      finalString = [], incompleteFix = 0\<rparr> 100
     = Inr (True, \<lparr>tokens = [1, 100], tempBytes = [72, 101, 108, 108, 111, 32],
                   finalString = [], incompleteFix = 0\<rparr>) \<and>
   map_option (map_sum fst fst)
     (generate 5 (script_cpp [1, 2] hello_pieces)
        (demo_model fresh (demo_config\<lparr>antiPrompt := [[87, 111, 114, 108, 100]], n_predict := 9\<rparr>) 4))
     = Some (Inr [72, 101, 108, 108, 111, 32])"
proof -
  let ?M = "demo_model fresh demo_config 4"
  let ?P = "script_cpp [] byte_piece"
  let ?g = "\<lparr>tokens = [1], tempBytes = [72, 101, 108, 108, 111, 32, 87, 111, 114, 108],
             finalString = [], incompleteFix = 0\<rparr>"
  let ?a = "[87, 111, 114, 108, 100] :: byte list"
  have h1: "(100 :: int) \<noteq> EOSToken ?M" by (simp add: demo_model_def)
  have h2: "(100 :: int) \<notin> set exitTokens" by (simp add: exitTokens_def)
  have h3: "tokenToByte ?P 100 = Inr [100]" by code_simp
  have h4: "incomplete_scan (incompleteFix ?g) (tempBytes ?g @ [100]) \<le> 0" by code_simp
  have h5: "?a \<in> set [?a]" by simp
  have h6: "bytes_find (tempBytes ?g @ [100]) ?a \<noteq> None" by code_simp
  have v: "loop_body ?P [?a] ?M ?g 100
     = Inr (True, \<lparr>tokens = [1, 100], tempBytes = [72, 101, 108, 108, 111, 32],
                   finalString = [], incompleteFix = 0\<rparr>)"
    by code_simp
  from anti_prompt_truncates [OF h1 h2 h3 h4 h5 h6]
  obtain g' where "loop_body ?P [?a] ?M ?g 100 = Inr (True, g')" by blast
  have r: "map_option (map_sum fst fst)
     (generate 5 (script_cpp [1, 2] hello_pieces)
        (demo_model fresh (demo_config\<lparr>antiPrompt := [[87, 111, 114, 108, 100]], n_predict := 9\<rparr>) 4))
     = Some (Inr [72, 101, 108, 108, 111, 32])"
    by code_simp
  from h1 h2 h3 h4 h6 v r show ?thesis by simp
qed

text \<open>
  C5 on the code. The scan numbers the bytes of \<open>tempBytes[-3:]\<close> from 3 down, also
  when the buffer holds fewer than three bytes, so the lead byte of a character that
  starts the buffer is taken for the third byte from the end and no countdown is set.
  With \<open>n_predict = 1\<close> and the three bytes of the euro sign sampled one per token, the
  loop reaches the length check on the second byte and is left with the character
  incomplete and nothing decoded; with one byte before the character, the countdown
  suppresses the checks until the third byte has arrived and the character is decoded.
\<close>

theorem incomplete_guard_misses_buffer_start:
  "incomplete_scan 0 [226] = 0 \<and> incomplete_scan 0 [97, 226] = 1 \<and>
   map_option (map_sum fst (\<lambda>(g, s'). (tokens g, tempBytes g, finalString g)))
     (generate_loop 9 (script_cpp [1, 2, 3] euro_pieces) [] (demo_model fresh demo_config 4)
        [1] start_locals)
     = Some (Inr ([1, 2], [226, 130], [])) \<and>
   map_option (map_sum fst (\<lambda>(g, s'). (tokens g, tempBytes g, finalString g)))
     (generate_loop 9 (script_cpp [0, 1, 2, 3] euro_pieces) [] (demo_model fresh demo_config 4)
        [1] start_locals)
     = Some (Inr ([0, 1, 2, 3], [97, 226, 130, 172], [97, 8364]))"
  by code_simp

end
